theory Spec2Isabelle
  imports Main "HOL-Library.Word" "HOL-Library.Signed_Division"
begin

unbundle bit_operations_syntax

section \<open>PGM2 driver (src/mame/drivers/pgm2.cpp): data model\<close>

type_synonym u8 = "8 word"
type_synonym u16 = "16 word"
type_synonym u32 = "32 word"

text \<open>
  An access outside a C array is undefined behaviour in the source; the model makes it a
  value: \<open>Inl (OutOfRange idx)\<close>, where \<open>idx\<close> is the offending index.
\<close>

datatype fault = OutOfRange nat

text \<open>
  Modelled from the spec: the memory-card device (pgm2_memcard) is not among the sources.
  The spec gives its contract: \<open>present()\<close>, \<open>read(offset)\<close>, \<open>write(offset, byte)\<close>,
  with a "not present" sentinel for an empty slot (the driver compares it with \<open>-1\<close>).
  A slot is \<open>None\<close> when empty and \<open>Some d\<close> when it holds a card with contents \<open>d\<close>.
\<close>

type_synonym memcard = "(nat \<Rightarrow> u8) option"

definition present :: "memcard \<Rightarrow> int" where
  "present c = (case c of None \<Rightarrow> - 1 | Some d \<Rightarrow> 0)"

definition memcard_read :: "memcard \<Rightarrow> nat \<Rightarrow> u8" where
  "memcard_read c offset = (case c of None \<Rightarrow> 0 | Some d \<Rightarrow> d offset)"

definition memcard_write :: "memcard \<Rightarrow> nat \<Rightarrow> u8 \<Rightarrow> memcard" where
  "memcard_write c offset data = (case c of None \<Rightarrow> None | Some d \<Rightarrow> Some (d(offset := data)))"

text \<open>
  Modelled from the spec: \<open>attotime\<close> and the timer device are not among the sources.
  A duration is a number of attoseconds; the timer is one-shot, and \<open>adjust\<close> replaces
  the pending expiry (spec, section 5: rearming replaces the previous pending completion).
\<close>

type_synonym attotime = int

definition from_msec :: "int \<Rightarrow> attotime" where
  "from_msec ms = ms * 1000000000000000"

definition from_usec :: "int \<Rightarrow> attotime" where
  "from_usec us = us * 1000000000000"

text \<open>
  Modelled from the spec: the members of \<open>pgm2_state\<close> are declared in
  includes/pgm2.h, which is not among the sources; their widths are those of section 3 of
  the spec (a 256-byte table, 256 bytes of share RAM, eight 32-bit MCU registers, a byte
  for the last command). The record holds the members that the functions below touch, the
  memory regions they transform (as 16-bit words, the view the decoders take), and what
  the collaborators received: the calls of the interrupt controller and of the log.
\<close>

record pgm2_state =
  m_encryption_table :: "nat \<Rightarrow> u8"
  m_has_decrypted :: int
  m_spritekey :: u32
  m_realspritekey :: u32
  m_sprite_predecrypted :: int
  m_shareram :: "nat \<Rightarrow> u8"
  m_share_bank :: u16
  m_mcu_regs :: "nat \<Rightarrow> u32"
  m_mcu_result0 :: u32
  m_mcu_result1 :: u32
  m_mcu_last_cmd :: u8
  m_memcard_device :: "nat \<Rightarrow> memcard"
  m_mcu_timer :: "attotime option"
  arm_aic_irq :: "nat list"
  logerror_out :: "(string \<times> u32 list) list"
  user1 :: "u16 list"
  sprites_mask :: "u16 list"
  sprites_colour :: "u16 list"

section \<open>Macros of the emulator core\<close>

text \<open>
  Modelled from the spec: \<open>BIT\<close>, \<open>BITSWAP16\<close>, \<open>BITSWAP32\<close> and \<open>COMBINE_DATA\<close> are
  macros of the emulator core, not among the sources. \<open>BITSWAPn(val, B(n-1), ..., B0)\<close>
  builds the word whose bit \<open>k\<close> is bit \<open>Bk\<close> of \<open>val\<close> (section 4.3 of the spec: with the
  arguments 0..31 it reverses the bit order of all 32 bits); \<open>COMBINE_DATA\<close> merges the
  written data into the register under the access mask.
\<close>

definition BIT :: "'a::len word \<Rightarrow> nat \<Rightarrow> 'a word" where
  "BIT x n = drop_bit n x AND 1"

fun bitswap :: "'a::len word \<Rightarrow> nat list \<Rightarrow> 'a word" where
  "bitswap val [] = 0"
| "bitswap val (b # bs) = push_bit (length bs) (BIT val b) OR bitswap val bs"

definition BITSWAP16 :: "u16 \<Rightarrow> nat list \<Rightarrow> u16" where
  "BITSWAP16 val bs = bitswap val bs"

definition BITSWAP32 :: "u32 \<Rightarrow> nat list \<Rightarrow> u32" where
  "BITSWAP32 val bs = bitswap val bs"

definition COMBINE_DATA :: "'a::len word \<Rightarrow> 'a word \<Rightarrow> 'a word \<Rightarrow> 'a word" where
  "COMBINE_DATA var data mem_mask = (var AND NOT mem_mask) OR (data AND mem_mask)"

section \<open>Encryption registers\<close>

definition encryption_r :: "pgm2_state \<Rightarrow> nat \<Rightarrow> u8" where
  "encryption_r s offset = m_encryption_table s offset"

definition encryption_w :: "nat \<Rightarrow> u8 \<Rightarrow> pgm2_state \<Rightarrow> pgm2_state" where
  "encryption_w offset data s = s\<lparr>m_encryption_table := (m_encryption_table s)(offset := data)\<rparr>"

definition sprite_encryption_w :: "u32 \<Rightarrow> u32 \<Rightarrow> pgm2_state \<Rightarrow> pgm2_state" where
  "sprite_encryption_w data mem_mask s =
     (let s1 = s\<lparr>m_spritekey := COMBINE_DATA (m_spritekey s) data mem_mask\<rparr>
      in if m_sprite_predecrypted s1 = 0
         then s1\<lparr>m_realspritekey :=
                BITSWAP32 (m_spritekey s1 XOR 0x90055555)
                  [0, 1, 2, 3, 4, 5, 6, 7, 8, 9, 10, 11, 12, 13, 14, 15, 16, 17, 18, 19,
                   20, 21, 22, 23, 24, 25, 26, 27, 28, 29, 30, 31]\<rparr>
         else s1)"

text \<open>
  The IGS036 decryptor (machine/igs036crypt) is outside the sources and opaque to the
  spec ("table in, buffer mutated in place"): it is the parameter \<open>decrypter_rom\<close>, from the
  256-byte key table and the region to the decrypted region.
\<close>

definition encryption_do_w ::
  "((nat \<Rightarrow> u8) \<Rightarrow> u16 list \<Rightarrow> u16 list) \<Rightarrow> u32 \<Rightarrow> u32 \<Rightarrow> pgm2_state \<Rightarrow> pgm2_state" where
  "encryption_do_w decrypter_rom data mem_mask s =
     (if m_has_decrypted s = 0
      then s\<lparr>user1 := decrypter_rom (m_encryption_table s) (user1 s), m_has_decrypted := 1\<rparr>
      else s)"

section \<open>Shared dual-bank RAM\<close>

definition share_bank_w :: "u16 \<Rightarrow> u16 \<Rightarrow> pgm2_state \<Rightarrow> pgm2_state" where
  "share_bank_w data mem_mask s = s\<lparr>m_share_bank := COMBINE_DATA (m_share_bank s) data mem_mask\<rparr>"

text \<open>
  \<open>m_shareram\<close> is an array of \<open>0x100\<close> bytes: every access checks its index against
  that size. The main processor's accessors compute \<open>offset + (m_share_bank & 1) * 128\<close>.
\<close>

definition shareram_r :: "pgm2_state \<Rightarrow> nat \<Rightarrow> fault + u8" where
  "shareram_r s offset =
     (let idx = offset + unat (m_share_bank s AND 1) * 128
      in if idx < 0x100 then Inr (m_shareram s idx) else Inl (OutOfRange idx))"

definition shareram_w :: "nat \<Rightarrow> u8 \<Rightarrow> pgm2_state \<Rightarrow> fault + pgm2_state" where
  "shareram_w offset data s =
     (let idx = offset + unat (m_share_bank s AND 1) * 128
      in if idx < 0x100 then Inr (s\<lparr>m_shareram := (m_shareram s)(idx := data)\<rparr>)
         else Inl (OutOfRange idx))"

section \<open>Interrupts and the completion timer\<close>

definition igs_interrupt :: "pgm2_state \<Rightarrow> pgm2_state" where
  "igs_interrupt s = s\<lparr>arm_aic_irq := arm_aic_irq s @ [0x47]\<rparr>"

definition igs_interrupt2 :: "pgm2_state \<Rightarrow> pgm2_state" where
  "igs_interrupt2 s = s\<lparr>arm_aic_irq := arm_aic_irq s @ [0x46]\<rparr>"

text \<open>
  Modelled from the spec: the scheduler is an external collaborator ("a timer/scheduler
  capable of firing a callback after a specified delay"; "once a completion timer is armed
  it always fires"). \<open>elapse dt\<close> lets \<open>dt\<close> attoseconds pass: an armed timer whose
  delay has not elapsed keeps the remainder, one whose delay has elapsed runs its callback
  \<open>igs_interrupt2\<close> and is disarmed.
\<close>

definition elapse :: "attotime \<Rightarrow> pgm2_state \<Rightarrow> pgm2_state" where
  "elapse dt s =
     (case m_mcu_timer s of
        None \<Rightarrow> s
      | Some d \<Rightarrow> if dt < d then s\<lparr>m_mcu_timer := Some (d - dt)\<rparr>
                  else igs_interrupt2 (s\<lparr>m_mcu_timer := None\<rparr>))"

section \<open>MCU protocol emulation\<close>

text \<open>The index expression of every MCU-side access: \<open>i + (~m_share_bank & 1) * 128\<close>.\<close>

definition mcu_share_index :: "pgm2_state \<Rightarrow> nat \<Rightarrow> nat" where
  "mcu_share_index s i = i + unat (NOT (m_share_bank s) AND 1) * 128"

text \<open>Case 0xc2: the loop reading \<open>arg3\<close> bytes of the card into the share RAM.\<close>

function mcu_read_card :: "nat \<Rightarrow> nat \<Rightarrow> nat \<Rightarrow> nat \<Rightarrow> pgm2_state \<Rightarrow> fault + pgm2_state" where
  "mcu_read_card i slot arg2 arg3 s =
     (if i < arg3
      then (if present (m_memcard_device s slot) \<noteq> - 1
            then (if mcu_share_index s i < 0x100
                  then mcu_read_card (i + 1) slot arg2 arg3
                         (s\<lparr>m_shareram := (m_shareram s)
                              (mcu_share_index s i := memcard_read (m_memcard_device s slot) (arg2 + i))\<rparr>)
                  else Inl (OutOfRange (mcu_share_index s i)))
            else mcu_read_card (i + 1) slot arg2 arg3 s)
      else Inr s)"
  by pat_completeness auto
termination
  by (relation "measure (\<lambda>(i, slot, arg2, arg3, s). arg3 - i)") auto

declare mcu_read_card.simps [simp del]

text \<open>Case 0xc3: the loop saving \<open>arg3\<close> bytes of the share RAM to the card.\<close>

function mcu_write_card :: "nat \<Rightarrow> nat \<Rightarrow> nat \<Rightarrow> nat \<Rightarrow> pgm2_state \<Rightarrow> fault + pgm2_state" where
  "mcu_write_card i slot arg2 arg3 s =
     (if i < arg3
      then (if present (m_memcard_device s slot) \<noteq> - 1
            then (if mcu_share_index s i < 0x100
                  then mcu_write_card (i + 1) slot arg2 arg3
                         (s\<lparr>m_memcard_device := (m_memcard_device s)
                              (slot := memcard_write (m_memcard_device s slot) (arg2 + i)
                                         (m_shareram s (mcu_share_index s i)))\<rparr>)
                  else Inl (OutOfRange (mcu_share_index s i)))
            else mcu_write_card (i + 1) slot arg2 arg3 s)
      else Inr s)"
  by pat_completeness auto
termination
  by (relation "measure (\<lambda>(i, slot, arg2, arg3, s). arg3 - i)") auto

declare mcu_write_card.simps [simp del]

definition logerror :: "string \<Rightarrow> u32 list \<Rightarrow> pgm2_state \<Rightarrow> pgm2_state" where
  "logerror fmt args s = s\<lparr>logerror_out := logerror_out s @ [(fmt, args)]\<rparr>"

text \<open>
  The \<open>switch (cmd)\<close> of \<open>mcu_command\<close>: the state after the case, with the values of the
  locals \<open>status\<close> (initially \<open>0xf7\<close>) and \<open>delay\<close> (initially 1) at the end of it.
\<close>

definition mcu_switch ::
  "pgm2_state \<Rightarrow> u8 \<Rightarrow> u8 \<Rightarrow> u8 \<Rightarrow> u8 \<Rightarrow> fault + (pgm2_state \<times> u8 \<times> int)" where
  "mcu_switch s cmd arg1 arg2 arg3 =
     (if cmd = 0xf6 then
        Inr (s\<lparr>m_mcu_regs := (m_mcu_regs s)(3 := m_mcu_result0 s, 4 := m_mcu_result1 s),
               m_mcu_last_cmd := 0\<rparr>, 0xf7, 1)
      else if cmd = 0xe0 then
        Inr (s\<lparr>m_mcu_result0 := m_mcu_regs s 0, m_mcu_result1 := m_mcu_regs s 1\<rparr>, 0xf7, 30)
      else if cmd = 0xe1 then
        (let mode = (ucast (drop_bit 16 (m_mcu_regs s 0)) :: u8);
             data = (ucast (drop_bit 24 (m_mcu_regs s 0)) :: u8);
             s1 = (if mode = 2
                   then s\<lparr>m_shareram := (\<lambda>j. if mcu_share_index s 0 \<le> j \<and> j < mcu_share_index s 0 + 128
                                                 then data else m_shareram s j)\<rparr>
                   else s)
         in Inr (s1\<lparr>m_mcu_result0 := ucast cmd, m_mcu_result1 := 0\<rparr>, 0xf7, 1))
      else if cmd = 0xc0 then
        Inr (s\<lparr>m_mcu_result0 := ucast cmd\<rparr>,
             if present (m_memcard_device s (unat (arg1 AND 3))) = - 1 then 0xf4 else 0xf7, 1)
      else if cmd = 0xc1 then
        Inr (s\<lparr>m_mcu_result0 := ucast cmd\<rparr>, 0xf7, 1)
      else if cmd = 0xc2 then
        (case mcu_read_card 0 (unat (arg1 AND 3)) (unat arg2) (unat arg3) s of
           Inl e \<Rightarrow> Inl e
         | Inr s1 \<Rightarrow> Inr (s1\<lparr>m_mcu_result0 := ucast cmd\<rparr>, 0xf7, 1))
      else if cmd = 0xc3 then
        (case mcu_write_card 0 (unat (arg1 AND 3)) (unat arg2) (unat arg3) s of
           Inl e \<Rightarrow> Inl e
         | Inr s1 \<Rightarrow> Inr (s1\<lparr>m_mcu_result0 := ucast cmd\<rparr>, 0xf7, 1))
      else if cmd = 0xc7 then
        Inr (s\<lparr>m_mcu_result1 := 0xf81f0000, m_mcu_result0 := ucast cmd\<rparr>, 0xf7, 1)
      else if cmd = 0xc8 then
        (let s1 = (if present (m_memcard_device s (unat (arg1 AND 3))) \<noteq> - 1
                   then s\<lparr>m_memcard_device := (m_memcard_device s)
                           (unat (arg1 AND 3) :=
                              memcard_write (m_memcard_device s (unat (arg1 AND 3))) (unat arg2) arg3)\<rparr>
                   else s)
         in Inr (s1\<lparr>m_mcu_result0 := ucast cmd\<rparr>, 0xf7, 1))
      else if cmd = 0xc4 \<or> cmd = 0xc5 \<or> cmd = 0xc6 \<or> cmd = 0xc9 then
        Inr (s\<lparr>m_mcu_result0 := ucast cmd\<rparr>, 0xf7, 1)
      else
        Inr (logerror (''MCU unknown command %08x %08x'' @ [CHR 0x0A]) [m_mcu_regs s 0, m_mcu_regs s 1] s, 0xf4, 1))"

definition mcu_command :: "pgm2_state \<Rightarrow> bool \<Rightarrow> fault + pgm2_state" where
  "mcu_command s is_command =
     (let cmd = (ucast (m_mcu_regs s 0 AND 0xff) :: u8)
      in if is_command then
           (let s1 = s\<lparr>m_mcu_last_cmd := cmd\<rparr>;
                arg1 = (ucast (drop_bit 8 (m_mcu_regs s 0)) :: u8);
                arg2 = (ucast (drop_bit 16 (m_mcu_regs s 0)) :: u8);
                arg3 = (ucast (drop_bit 24 (m_mcu_regs s 0)) :: u8)
            in case mcu_switch s1 cmd arg1 arg2 arg3 of
                 Inl e \<Rightarrow> Inl e
               | Inr (s2, status, delay) \<Rightarrow>
                   Inr (s2\<lparr>m_mcu_regs := (m_mcu_regs s2)
                             (3 := (m_mcu_regs s2 3 AND 0xff00ffff) OR push_bit 16 (ucast status)),
                           m_mcu_timer := Some (from_msec delay)\<rparr>))
         else if m_mcu_last_cmd s \<noteq> 0 then
           Inr (s\<lparr>m_mcu_regs := (m_mcu_regs s)(3 := (m_mcu_regs s 3 AND 0xff00ffff) OR 0x00F20000),
                  m_mcu_timer := Some (from_usec 100),
                  m_mcu_last_cmd := 0\<rparr>)
         else Inr s)"

definition mcu_r :: "pgm2_state \<Rightarrow> u32 \<Rightarrow> u32" where
  "mcu_r s offset = m_mcu_regs s (unat (drop_bit 15 offset AND 7))"

definition mcu_w :: "u32 \<Rightarrow> u32 \<Rightarrow> u32 \<Rightarrow> pgm2_state \<Rightarrow> fault + pgm2_state" where
  "mcu_w offset data mem_mask s =
     (let reg = unat (drop_bit 15 offset AND 7);
          s1 = s\<lparr>m_mcu_regs := (m_mcu_regs s)(reg := COMBINE_DATA (m_mcu_regs s reg) data mem_mask)\<rparr>
      in case (if reg = 2 \<and> m_mcu_regs s1 2 \<noteq> 0 then mcu_command s1 True else Inr s1) of
           Inl e \<Rightarrow> Inl e
         | Inr s2 \<Rightarrow> if reg = 5 \<and> m_mcu_regs s2 5 \<noteq> 0 then mcu_command s2 False else Inr s2)"

section \<open>Graphics ROM decoders\<close>

text \<open>
  A memory region is viewed as 16-bit words, so \<open>bytes()\<close> is twice the number of
  words. The loops run on C \<open>int\<close>s: \<open>len / 2\<close> truncates (\<open>sdiv\<close>), and an index
  outside the region is a fault.
\<close>

definition bytes :: "u16 list \<Rightarrow> int" where
  "bytes rgn = 2 * int (length rgn)"

definition iga_u16_x :: "int \<Rightarrow> int \<Rightarrow> u16" where
  "iga_u16_x i ixor =
     (let x = (word_of_int ixor :: u16);
          x = (if drop_bit 1 i AND 0x000001 \<noteq> 0 then x XOR 0x0010 else x);
          x = (if drop_bit 1 i AND 0x000002 \<noteq> 0 then x XOR 0x2004 else x);
          x = (if drop_bit 1 i AND 0x000004 \<noteq> 0 then x XOR 0x0801 else x);
          x = (if drop_bit 1 i AND 0x000008 \<noteq> 0 then x XOR 0x0300 else x);
          x = (if drop_bit 1 i AND 0x000010 \<noteq> 0 then x XOR 0x0080 else x);
          x = (if drop_bit 1 i AND 0x000020 \<noteq> 0 then x XOR 0x0020 else x);
          x = (if drop_bit 1 i AND 0x000040 \<noteq> 0 then x XOR 0x4008 else x);
          x = (if drop_bit 1 i AND 0x000080 \<noteq> 0 then x XOR 0x1002 else x);
          x = (if drop_bit 1 i AND 0x000100 \<noteq> 0 then x XOR 0x0400 else x);
          x = (if drop_bit 1 i AND 0x000200 \<noteq> 0 then x XOR 0x0040 else x);
          x = (if drop_bit 1 i AND 0x000400 \<noteq> 0 then x XOR 0x8000 else x)
      in x)"

definition iga_u16_word :: "int \<Rightarrow> int \<Rightarrow> u16 \<Rightarrow> u16" where
  "iga_u16_word i ixor w =
     BITSWAP16 (w XOR iga_u16_x i ixor) [8, 9, 10, 11, 12, 13, 14, 15, 0, 1, 2, 3, 4, 5, 6, 7]"

function iga_u16_decode_loop :: "int \<Rightarrow> int \<Rightarrow> int \<Rightarrow> u16 list \<Rightarrow> fault + u16 list" where
  "iga_u16_decode_loop i len ixor rom =
     (if i < len sdiv 2
      then (if 0 \<le> i \<and> nat i < length rom
            then iga_u16_decode_loop (i + 2) len ixor (rom[nat i := iga_u16_word i ixor (rom ! nat i)])
            else Inl (OutOfRange (nat i)))
      else Inr rom)"
  by pat_completeness auto
termination
  by (relation "measure (\<lambda>(i, len, ixor, rom). nat (len sdiv 2 - i))") auto

declare iga_u16_decode_loop.simps [simp del]

definition iga_u16_decode :: "u16 list \<Rightarrow> int \<Rightarrow> int \<Rightarrow> fault + u16 list" where
  "iga_u16_decode rom len ixor = iga_u16_decode_loop 1 len ixor rom"

definition iga_u12_x :: "int \<Rightarrow> int \<Rightarrow> u16" where
  "iga_u12_x i ixor =
     (let x = (word_of_int ixor :: u16);
          x = (if drop_bit 1 i AND 0x000001 \<noteq> 0 then x XOR 0x9004 else x);
          x = (if drop_bit 1 i AND 0x000002 \<noteq> 0 then x XOR 0x0028 else x);
          x = (if drop_bit 1 i AND 0x000004 \<noteq> 0 then x XOR 0x0182 else x);
          x = (if drop_bit 1 i AND 0x000008 \<noteq> 0 then x XOR 0x0010 else x);
          x = (if drop_bit 1 i AND 0x000010 \<noteq> 0 then x XOR 0x2040 else x);
          x = (if drop_bit 1 i AND 0x000020 \<noteq> 0 then x XOR 0x0801 else x);
          x = (if drop_bit 1 i AND 0x000040 \<noteq> 0 then x XOR 0x0000 else x);
          x = (if drop_bit 1 i AND 0x000080 \<noteq> 0 then x XOR 0x0000 else x);
          x = (if drop_bit 1 i AND 0x000100 \<noteq> 0 then x XOR 0x4000 else x);
          x = (if drop_bit 1 i AND 0x000200 \<noteq> 0 then x XOR 0x0600 else x);
          x = (if drop_bit 1 i AND 0x000400 \<noteq> 0 then x XOR 0x0000 else x)
      in x)"

definition iga_u12_word :: "int \<Rightarrow> int \<Rightarrow> u16 \<Rightarrow> u16" where
  "iga_u12_word i ixor w =
     BITSWAP16 (w XOR iga_u12_x i ixor) [8, 9, 10, 11, 12, 13, 14, 15, 0, 1, 2, 3, 4, 5, 6, 7]"

function iga_u12_decode_loop :: "int \<Rightarrow> int \<Rightarrow> int \<Rightarrow> u16 list \<Rightarrow> fault + u16 list" where
  "iga_u12_decode_loop i len ixor rom =
     (if i < len sdiv 2
      then (if 0 \<le> i \<and> nat i < length rom
            then iga_u12_decode_loop (i + 2) len ixor (rom[nat i := iga_u12_word i ixor (rom ! nat i)])
            else Inl (OutOfRange (nat i)))
      else Inr rom)"
  by pat_completeness auto
termination
  by (relation "measure (\<lambda>(i, len, ixor, rom). nat (len sdiv 2 - i))") auto

declare iga_u12_decode_loop.simps [simp del]

definition iga_u12_decode :: "u16 list \<Rightarrow> int \<Rightarrow> int \<Rightarrow> fault + u16 list" where
  "iga_u12_decode rom len ixor = iga_u12_decode_loop 0 len ixor rom"

definition sprite_colour_word :: "u16 \<Rightarrow> u16" where
  "sprite_colour_word w =
     BITSWAP16 w [15, 14,
                  13, 12, 11,
                  5, 4, 3,
                  7, 6,
                  10, 9, 8,
                  2, 1, 0]"

function sprite_colour_decode_loop :: "int \<Rightarrow> int \<Rightarrow> u16 list \<Rightarrow> fault + u16 list" where
  "sprite_colour_decode_loop i len rom =
     (if i < len sdiv 2
      then (if 0 \<le> i \<and> nat i < length rom
            then sprite_colour_decode_loop (i + 1) len (rom[nat i := sprite_colour_word (rom ! nat i)])
            else Inl (OutOfRange (nat i)))
      else Inr rom)"
  by pat_completeness auto
termination
  by (relation "measure (\<lambda>(i, len, rom). nat (len sdiv 2 - i))") auto

declare sprite_colour_decode_loop.simps [simp del]

definition sprite_colour_decode :: "u16 list \<Rightarrow> int \<Rightarrow> fault + u16 list" where
  "sprite_colour_decode rom len = sprite_colour_decode_loop 0 len rom"

section \<open>Driver initialisation\<close>

text \<open>
  \<open>common_encryption_init\<close>: for the games whose internal ROM provides the sprite key and
  the program ROM key at run time.
\<close>

definition common_encryption_init :: "pgm2_state \<Rightarrow> fault + pgm2_state" where
  "common_encryption_init s =
     (case iga_u12_decode (sprites_mask s) (bytes (sprites_mask s)) 0x0000 of
        Inl e \<Rightarrow> Inl e
      | Inr m1 \<Rightarrow>
     (case iga_u16_decode m1 (bytes (sprites_mask s)) 0x0000 of
        Inl e \<Rightarrow> Inl e
      | Inr m2 \<Rightarrow>
     (case sprite_colour_decode (sprites_colour s) (bytes (sprites_colour s)) of
        Inl e \<Rightarrow> Inl e
      | Inr c \<Rightarrow>
          Inr (s\<lparr>sprites_mask := m2, m_sprite_predecrypted := 0,
                 sprites_colour := c, m_has_decrypted := 0\<rparr>))))"

text \<open>
  The inits of the games without a dumped internal ROM take fixed lengths and keys, and
  decrypt the program ROM at once with the game's key table (\<open>ddpdoj_key\<close>,
  \<open>kov3_key\<close>: constants of the decryptor's module, parameters here).
\<close>

definition driver_init_ddpdojh ::
  "((nat \<Rightarrow> u8) \<Rightarrow> u16 list \<Rightarrow> u16 list) \<Rightarrow> (nat \<Rightarrow> u8) \<Rightarrow> pgm2_state \<Rightarrow> fault + pgm2_state" where
  "driver_init_ddpdojh decrypter_rom ddpdoj_key s =
     (case iga_u12_decode (sprites_mask s) 0x1000000 0x1e96 of
        Inl e \<Rightarrow> Inl e
      | Inr m1 \<Rightarrow>
     (case iga_u16_decode m1 0x1000000 0x869c of
        Inl e \<Rightarrow> Inl e
      | Inr m2 \<Rightarrow>
     (case sprite_colour_decode (sprites_colour s) 0x2000000 of
        Inl e \<Rightarrow> Inl e
      | Inr c \<Rightarrow>
          Inr (s\<lparr>sprites_mask := m2, m_sprite_predecrypted := 1,
                 sprites_colour := c,
                 user1 := decrypter_rom ddpdoj_key (user1 s), m_has_decrypted := 1\<rparr>))))"

definition driver_init_kov3 ::
  "((nat \<Rightarrow> u8) \<Rightarrow> u16 list \<Rightarrow> u16 list) \<Rightarrow> (nat \<Rightarrow> u8) \<Rightarrow> pgm2_state \<Rightarrow> fault + pgm2_state" where
  "driver_init_kov3 decrypter_rom kov3_key s =
     (case iga_u12_decode (sprites_mask s) 0x4000000 0x956d of
        Inl e \<Rightarrow> Inl e
      | Inr m1 \<Rightarrow>
     (case iga_u16_decode m1 0x4000000 0x3d17 of
        Inl e \<Rightarrow> Inl e
      | Inr m2 \<Rightarrow>
     (case sprite_colour_decode (sprites_colour s) 0x8000000 of
        Inl e \<Rightarrow> Inl e
      | Inr c \<Rightarrow>
          Inr (s\<lparr>sprites_mask := m2, m_sprite_predecrypted := 1,
                 sprites_colour := c,
                 user1 := decrypter_rom kov3_key (user1 s), m_has_decrypted := 1\<rparr>))))"

text \<open>
  \<open>decrypt_kov3_module\<close>: \<open>buffer[i] = src[i ^ addrxor] ^ dataxor\<close> for every word of the
  program ROM, into a fresh buffer that is then copied back.
\<close>

function decrypt_kov3_module_loop ::
  "nat \<Rightarrow> u32 \<Rightarrow> u16 \<Rightarrow> u16 list \<Rightarrow> u16 list \<Rightarrow> fault + u16 list" where
  "decrypt_kov3_module_loop i addrxor dataxor src buffer =
     (if i < length src
      then (if unat (word_of_nat i XOR addrxor) < length src
            then decrypt_kov3_module_loop (i + 1) addrxor dataxor src
                   (buffer[i := src ! unat (word_of_nat i XOR addrxor) XOR dataxor])
            else Inl (OutOfRange (unat (word_of_nat i XOR addrxor))))
      else Inr buffer)"
  by pat_completeness auto
termination
  by (relation "measure (\<lambda>(i, addrxor, dataxor, src, buffer). length src - i)") auto

declare decrypt_kov3_module_loop.simps [simp del]

definition decrypt_kov3_module :: "u32 \<Rightarrow> u16 \<Rightarrow> pgm2_state \<Rightarrow> fault + pgm2_state" where
  "decrypt_kov3_module addrxor dataxor s =
     (case decrypt_kov3_module_loop 0 addrxor dataxor (user1 s) (replicate (length (user1 s)) 0) of
        Inl e \<Rightarrow> Inl e
      | Inr buffer \<Rightarrow> Inr (s\<lparr>user1 := buffer\<rparr>))"

definition driver_init_kov3_104 ::
  "((nat \<Rightarrow> u8) \<Rightarrow> u16 list \<Rightarrow> u16 list) \<Rightarrow> (nat \<Rightarrow> u8) \<Rightarrow> pgm2_state \<Rightarrow> fault + pgm2_state" where
  "driver_init_kov3_104 decrypter_rom kov3_key s =
     (case decrypt_kov3_module 0x18ec71 0xb89d s of
        Inl e \<Rightarrow> Inl e
      | Inr s1 \<Rightarrow> driver_init_kov3 decrypter_rom kov3_key s1)"

section \<open>The spec's decryptTitle\<close>

text \<open>
  Section 4.2 of the spec, in its own words, to compare with the driver's inits:
  \<open>decryptTitle\<close> applies, in fixed order, (1) the optional module-layer transform with
  \<open>(addrMask, dataMask)\<close>, (2) the positional decoders over the sprite-mask and
  sprite-colour regions with the base keys, (3) the colour repack over the sprite-colour
  region.
\<close>

definition spec_positional_decode :: "u16 list \<Rightarrow> int \<Rightarrow> int \<Rightarrow> fault + u16 list" where
  "spec_positional_decode rgn keyA keyB =
     (case iga_u12_decode rgn (bytes rgn) keyA of
        Inl e \<Rightarrow> Inl e
      | Inr r1 \<Rightarrow> iga_u16_decode r1 (bytes rgn) keyB)"

definition spec_decryptTitle ::
  "(u32 \<times> u16) option \<Rightarrow> int \<Rightarrow> int \<Rightarrow> pgm2_state \<Rightarrow> fault + pgm2_state" where
  "spec_decryptTitle module keyA keyB s =
     (case (case module of
              None \<Rightarrow> Inr s
            | Some (addrMask, dataMask) \<Rightarrow> decrypt_kov3_module addrMask dataMask s) of
        Inl e \<Rightarrow> Inl e
      | Inr s1 \<Rightarrow>
     (case spec_positional_decode (sprites_mask s1) keyA keyB of
        Inl e \<Rightarrow> Inl e
      | Inr m \<Rightarrow>
     (case spec_positional_decode (sprites_colour s1) keyA keyB of
        Inl e \<Rightarrow> Inl e
      | Inr c1 \<Rightarrow>
     (case sprite_colour_decode c1 (bytes c1) of
        Inl e \<Rightarrow> Inl e
      | Inr c2 \<Rightarrow> Inr (s1\<lparr>sprites_mask := m, sprites_colour := c2\<rparr>)))))"

section \<open>A concrete machine state\<close>

text \<open>
  The state on which the model is evaluated at concrete inputs: all registers and both
  RAM banks zero, no card inserted, the timer not armed, nothing logged and empty regions.
\<close>

definition power_on :: pgm2_state where
  "power_on =
     \<lparr>m_encryption_table = (\<lambda>_. 0), m_has_decrypted = 0,
      m_spritekey = 0, m_realspritekey = 0, m_sprite_predecrypted = 0,
      m_shareram = (\<lambda>_. 0), m_share_bank = 0,
      m_mcu_regs = (\<lambda>_. 0), m_mcu_result0 = 0, m_mcu_result1 = 0, m_mcu_last_cmd = 0,
      m_memcard_device = (\<lambda>_. None), m_mcu_timer = None,
      arm_aic_irq = [], logerror_out = [],
      user1 = [], sprites_mask = [], sprites_colour = []\<rparr>"

text \<open>A card for the memory-card commands: its byte at offset \<open>k\<close> is \<open>k + 1\<close>.\<close>

definition test_card :: "nat \<Rightarrow> u8" where
  "test_card offset = word_of_nat offset + 1"

section \<open>Theorems\<close>

lemma bit_BIT_iff: "bit (BIT x n) k \<longleftrightarrow> k = 0 \<and> bit x n"
  by (auto simp: BIT_def bit_simps bit_1_iff)

lemma bit_bitswap_iff:
  "bit (bitswap (val :: 'a::len word) bs) n \<longleftrightarrow>
     n < LENGTH('a) \<and> n < length bs \<and> bit val (bs ! (length bs - Suc n))"
proof (induction bs arbitrary: n)
  case Nil
  show ?case by simp
next
  case (Cons b bs)
  have tl: "bit (bitswap val bs) n \<longleftrightarrow>
      n < LENGTH('a) \<and> n < length bs \<and> bit val (bs ! (length bs - Suc n))"
    by (rule Cons.IH)
  have hd: "bit (push_bit (length bs) (BIT val b)) n \<longleftrightarrow>
      n < LENGTH('a) \<and> n = length bs \<and> bit val b"
    by (auto simp: bit_push_bit_iff bit_BIT_iff dest: bit_imp_le_length)
  have both: "bit (bitswap val (b # bs)) n \<longleftrightarrow>
      (n < LENGTH('a) \<and> n = length bs \<and> bit val b) \<or>
      (n < LENGTH('a) \<and> n < length bs \<and> bit val (bs ! (length bs - Suc n)))"
    by (simp only: bitswap.simps bit_or_iff hd tl)
  show ?case
  proof (cases "n = length bs")
    case True
    then show ?thesis
      unfolding both by simp
  next
    case False
    have idx: "n < length bs \<Longrightarrow> (b # bs) ! (length bs - n) = bs ! (length bs - Suc n)"
      by (simp add: nth_Cons')
    from False idx show ?thesis
      unfolding both by auto
  qed
qed

subsection \<open>Words\<close>

lemma status_mask: "(0xff00ffff::u32) = NOT (push_bit 16 (mask 8))"
  by (simp add: mask_eq_exp_minus_1)

lemma status_field:
  "(ucast (drop_bit 16 ((x AND 0xff00ffff) OR push_bit 16 (ucast (st::u8)) :: u32)) :: u8) = st"
  unfolding status_mask
  by (rule bit_word_eqI) (auto simp: bit_simps)

lemma full_mask: "(0xffffffff::u32) = - 1"
  by simp

lemma COMBINE_DATA_full: "COMBINE_DATA (v::u32) d 0xffffffff = d"
  unfolding full_mask by (simp add: COMBINE_DATA_def)

lemma BITSWAP32_reverse:
  "BITSWAP32 x [0, 1, 2, 3, 4, 5, 6, 7, 8, 9, 10, 11, 12, 13, 14, 15, 16, 17, 18, 19,
                20, 21, 22, 23, 24, 25, 26, 27, 28, 29, 30, 31] = word_reverse x"
proof -
  have l: "[0, 1, 2, 3, 4, 5, 6, 7, 8, 9, 10, 11, 12, 13, 14, 15, 16, 17, 18, 19,
            20, 21, 22, 23, 24, 25, 26, 27, 28, 29, 30, 31] = [0..<32]"
    by (simp add: upt_rec)
  show ?thesis
    unfolding l BITSWAP32_def
    by (rule bit_word_eqI) (auto simp: bit_bitswap_iff bit_word_reverse_iff)
qed

lemma status_field_f2: "(ucast (drop_bit 16 ((x AND 0xff00ffff) OR 0x00F20000 :: u32)) :: u8) = 0xf2"
  using status_field [of x "0xf2"] by simp

lemma status_field_f4: "(ucast (drop_bit 16 ((x AND 0xff00ffff) OR 0x00F40000 :: u32)) :: u8) = 0xf4"
  using status_field [of x "0xf4"] by simp

lemma status_field_f7: "(ucast (drop_bit 16 ((x AND 0xff00ffff) OR 0x00F70000 :: u32)) :: u8) = 0xf7"
  using status_field [of x "0xf7"] by simp

lemma status_keep: "((x AND 0xff00ffff) OR push_bit 16 (ucast (st::u8)) :: u32) AND 0xff00ffff = x AND 0xff00ffff"
  unfolding status_mask
  by (rule bit_word_eqI) (auto simp: bit_simps dest: bit_imp_le_length)

lemma status_keep_f7: "((x AND 0xff00ffff) OR 0x00f70000 :: u32) AND 0xff00ffff = x AND 0xff00ffff"
  using status_keep [of x "0xf7"] by simp

lemma status_keep_f4: "((x AND 0xff00ffff) OR 0x00f40000 :: u32) AND 0xff00ffff = x AND 0xff00ffff"
  using status_keep [of x "0xf4"] by simp

subsection \<open>The decrypt trigger\<close>

text \<open>
  Claim C1. Writing the decrypt-trigger register twice in succession leaves the machine
  (the program ROM with it) as one write does, whatever the written values, the key table
  and the program ROM are. A write that finds \<open>m_has_decrypted\<close> clear decrypts the
  program ROM in place with the table and sets the flag; a write that finds it set changes
  nothing at all; and the flag is set after every write.
\<close>

theorem encryption_do_w_once:
  "encryption_do_w dec d2 m2 (encryption_do_w dec d1 m1 s) = encryption_do_w dec d1 m1 s
   \<and> (m_has_decrypted s = 0 \<longrightarrow>
        encryption_do_w dec d1 m1 s =
          s\<lparr>user1 := dec (m_encryption_table s) (user1 s), m_has_decrypted := 1\<rparr>)
   \<and> (m_has_decrypted s \<noteq> 0 \<longrightarrow> encryption_do_w dec d1 m1 s = s)
   \<and> m_has_decrypted (encryption_do_w dec d1 m1 s) \<noteq> 0"
  by (simp add: encryption_do_w_def)

theorem encryption_do_w_once_witness:
  "m_has_decrypted (power_on\<lparr>user1 := [1, 2]\<rparr>) = 0
   \<and> user1 (encryption_do_w (\<lambda>t r. map (\<lambda>w. w XOR 0xff) r) 1 0xffffffff
        (power_on\<lparr>user1 := [1, 2]\<rparr>)) = [0xfe, 0xfd]
   \<and> user1 (encryption_do_w (\<lambda>t r. map (\<lambda>w. w XOR 0xff) r) 1 0xffffffff
        (encryption_do_w (\<lambda>t r. map (\<lambda>w. w XOR 0xff) r) 1 0xffffffff
          (power_on\<lparr>user1 := [1, 2]\<rparr>))) = [0xfe, 0xfd]"
  using encryption_do_w_once [of "\<lambda>t r. map (\<lambda>w. w XOR 0xff) r" 1 "0xffffffff" 1 "0xffffffff"
      "power_on\<lparr>user1 := [1, 2]\<rparr>"]
  by (simp add: power_on_def encryption_do_w_def)

subsection \<open>The sprite key\<close>

text \<open>
  Claim C2. A write to the raw sprite-key register stores the value (merged under the
  access mask; a full-width write stores the value itself). If \<open>m_sprite_predecrypted\<close>
  is false, the real key becomes the 32-bit bit-order reversal of the new raw key XOR
  \<open>0x90055555\<close>; if it is true, the real key is unchanged, whatever is written.
\<close>

theorem sprite_encryption_w_realkey:
  "m_spritekey (sprite_encryption_w data mem_mask s) = COMBINE_DATA (m_spritekey s) data mem_mask
   \<and> m_spritekey (sprite_encryption_w data 0xffffffff s) = data
   \<and> (m_sprite_predecrypted s = 0 \<longrightarrow>
        m_realspritekey (sprite_encryption_w data mem_mask s) =
          word_reverse (m_spritekey (sprite_encryption_w data mem_mask s) XOR 0x90055555))
   \<and> (m_sprite_predecrypted s \<noteq> 0 \<longrightarrow>
        m_realspritekey (sprite_encryption_w data mem_mask s) = m_realspritekey s)"
  unfolding sprite_encryption_w_def Let_def BITSWAP32_reverse
  by (simp add: COMBINE_DATA_full)

theorem sprite_encryption_w_realkey_witness:
  "m_sprite_predecrypted power_on = 0
   \<and> m_realspritekey (sprite_encryption_w 0x90055554 0xffffffff power_on) = 0x80000000
   \<and> m_sprite_predecrypted (power_on\<lparr>m_sprite_predecrypted := 1, m_realspritekey := 7\<rparr>) \<noteq> 0
   \<and> m_realspritekey (sprite_encryption_w 0x90055554 0xffffffff
         (power_on\<lparr>m_sprite_predecrypted := 1, m_realspritekey := 7\<rparr>)) = 7"
  using sprite_encryption_w_realkey [of "0x90055554" "0xffffffff" power_on]
    sprite_encryption_w_realkey [of "0x90055554" "0xffffffff"
      "power_on\<lparr>m_sprite_predecrypted := 1, m_realspritekey := 7\<rparr>"]
  by (simp add: power_on_def sprite_encryption_w_def BITSWAP32_def BIT_def COMBINE_DATA_full)

subsection \<open>MCU commands\<close>

lemma mcu_command_e0:
  assumes "(ucast (m_mcu_regs s 0 AND 0xff) :: u8) = 0xe0"
  shows "mcu_command s True =
     Inr (s\<lparr>m_mcu_last_cmd := 0xe0,
            m_mcu_result0 := m_mcu_regs s 0,
            m_mcu_result1 := m_mcu_regs s 1,
            m_mcu_regs := (m_mcu_regs s)(3 := (m_mcu_regs s 3 AND 0xff00ffff) OR 0x00f70000),
            m_mcu_timer := Some (from_msec 30)\<rparr>)"
  using assms by (simp add: mcu_command_def mcu_switch_def Let_def)

lemma mcu_command_f6:
  assumes "(ucast (m_mcu_regs s 0 AND 0xff) :: u8) = 0xf6"
  shows "mcu_command s True =
     Inr (s\<lparr>m_mcu_last_cmd := 0,
            m_mcu_regs := (m_mcu_regs s)
              (3 := (m_mcu_result0 s AND 0xff00ffff) OR 0x00f70000, 4 := m_mcu_result1 s),
            m_mcu_timer := Some (from_msec 1)\<rparr>)"
  using assms by (simp add: mcu_command_def mcu_switch_def Let_def fun_upd_twist)

lemma mcu_command_unknown:
  assumes "cmd = (ucast (m_mcu_regs s 0 AND 0xff) :: u8)"
    and "cmd \<notin> {0xf6, 0xe0, 0xe1, 0xc0, 0xc1, 0xc2, 0xc3, 0xc4, 0xc5, 0xc6, 0xc7, 0xc8, 0xc9}"
  shows "mcu_command s True =
     Inr (s\<lparr>m_mcu_last_cmd := cmd,
            logerror_out := logerror_out s @
              [(''MCU unknown command %08x %08x'' @ [CHR 0x0A], [m_mcu_regs s 0, m_mcu_regs s 1])],
            m_mcu_regs := (m_mcu_regs s)(3 := (m_mcu_regs s 3 AND 0xff00ffff) OR 0x00f40000),
            m_mcu_timer := Some (from_msec 1)\<rparr>)"
  using assms by (simp add: mcu_command_def mcu_switch_def Let_def logerror_def)

lemma mcu_command_ack:
  "mcu_command s False =
     (if m_mcu_last_cmd s \<noteq> 0
      then Inr (s\<lparr>m_mcu_regs := (m_mcu_regs s)(3 := (m_mcu_regs s 3 AND 0xff00ffff) OR 0x00F20000),
                  m_mcu_timer := Some (from_usec 100),
                  m_mcu_last_cmd := 0\<rparr>)
      else Inr s)"
  by (simp add: mcu_command_def)

lemma mcu_w_ack:
  assumes "unat (drop_bit 15 offset AND 7) = 5"
    and "COMBINE_DATA (m_mcu_regs s 5) data mem_mask \<noteq> 0"
  shows "mcu_w offset data mem_mask s =
     (if m_mcu_last_cmd s \<noteq> 0
      then Inr (s\<lparr>m_mcu_regs := (m_mcu_regs s)
                    (5 := COMBINE_DATA (m_mcu_regs s 5) data mem_mask,
                     3 := (m_mcu_regs s 3 AND 0xff00ffff) OR 0x00F20000),
                  m_mcu_timer := Some (from_usec 100),
                  m_mcu_last_cmd := 0\<rparr>)
      else Inr (s\<lparr>m_mcu_regs := (m_mcu_regs s)(5 := COMBINE_DATA (m_mcu_regs s 5) data mem_mask)\<rparr>))"
  using assms by (simp add: mcu_w_def Let_def mcu_command_ack)

text \<open>
  Claim C4. Every issue of command \<open>0xE0\<close> completes, with \<open>m_mcu_result0\<close> the
  command register and \<open>m_mcu_result1\<close> the auxiliary register exactly, and arms the
  completion timer for 30 units (milliseconds). The dispatch raises no interrupt itself, no
  completion interrupt is raised while less than that delay has elapsed, and it is raised
  when the delay has elapsed.
\<close>

theorem mcu_command_port_test:
  assumes "(ucast (m_mcu_regs s 0 AND 0xff) :: u8) = 0xe0"
  shows "\<exists>s'. mcu_command s True = Inr s'
     \<and> m_mcu_result0 s' = m_mcu_regs s 0
     \<and> m_mcu_result1 s' = m_mcu_regs s 1
     \<and> m_mcu_timer s' = Some (from_msec 30)
     \<and> arm_aic_irq s' = arm_aic_irq s
     \<and> (\<forall>dt. dt < from_msec 30 \<longrightarrow> arm_aic_irq (elapse dt s') = arm_aic_irq s)
     \<and> arm_aic_irq (elapse (from_msec 30) s') = arm_aic_irq s @ [0x46]"
  unfolding mcu_command_e0 [OF assms]
  by (simp add: elapse_def igs_interrupt2_def)

theorem mcu_command_port_test_witness:
  "(ucast (m_mcu_regs (power_on\<lparr>m_mcu_regs := (m_mcu_regs power_on)(0 := 0x123456e0, 1 := 0xdeadbeef)\<rparr>) 0
      AND 0xff) :: u8) = 0xe0
   \<and> (\<exists>s'. mcu_command (power_on\<lparr>m_mcu_regs := (m_mcu_regs power_on)(0 := 0x123456e0, 1 := 0xdeadbeef)\<rparr>) True
          = Inr s'
        \<and> m_mcu_result0 s' = 0x123456e0 \<and> m_mcu_result1 s' = 0xdeadbeef
        \<and> m_mcu_timer s' = Some 30000000000000000
        \<and> arm_aic_irq (elapse 29999999999999999 s') = []
        \<and> arm_aic_irq (elapse 30000000000000000 s') = [0x46])"
  using mcu_command_port_test
    [of "power_on\<lparr>m_mcu_regs := (m_mcu_regs power_on)(0 := 0x123456e0, 1 := 0xdeadbeef)\<rparr>"]
  by (auto simp: power_on_def from_msec_def)

text \<open>
  Claim C5, as stated, fails: after command \<open>0xF6\<close> mailbox register 3 is not the
  last \<open>m_mcu_result0\<close>. With \<open>m_mcu_result0 = 0\<close> the register reads
  \<open>0x00f70000\<close>, because the status is packed into its bits 16 to 23 after the copy.
\<close>

theorem mcu_command_get_result_counterexample:
  "(ucast (m_mcu_regs (power_on\<lparr>m_mcu_regs := (m_mcu_regs power_on)(0 := 0xf6)\<rparr>) 0 AND 0xff) :: u8) = 0xf6
   \<and> m_mcu_result0 (power_on\<lparr>m_mcu_regs := (m_mcu_regs power_on)(0 := 0xf6)\<rparr>) = 0
   \<and> m_mcu_regs (projr (mcu_command (power_on\<lparr>m_mcu_regs := (m_mcu_regs power_on)(0 := 0xf6)\<rparr>) True)) 3
       = 0x00f70000
   \<and> m_mcu_result0 (projr (mcu_command (power_on\<lparr>m_mcu_regs := (m_mcu_regs power_on)(0 := 0xf6)\<rparr>) True))
       = 0"
  by (simp add: power_on_def mcu_command_def mcu_switch_def Let_def)

text \<open>
  Claim C5, amended. Every issue of command \<open>0xF6\<close> completes and leaves in mailbox
  register 3 the last \<open>m_mcu_result0\<close> with its bits 16 to 23 replaced by the status
  \<open>0xf7\<close>, in register 4 the last \<open>m_mcu_result1\<close>, and \<open>m_mcu_last_cmd\<close> cleared;
  the results themselves are unchanged and the timer is armed for 1 unit.
\<close>

theorem mcu_command_get_result:
  assumes "(ucast (m_mcu_regs s 0 AND 0xff) :: u8) = 0xf6"
  shows "\<exists>s'. mcu_command s True = Inr s'
     \<and> m_mcu_regs s' 3 = (m_mcu_result0 s AND 0xff00ffff) OR 0x00f70000
     \<and> m_mcu_regs s' 3 AND 0xff00ffff = m_mcu_result0 s AND 0xff00ffff
     \<and> (ucast (drop_bit 16 (m_mcu_regs s' 3)) :: u8) = 0xf7
     \<and> m_mcu_regs s' 4 = m_mcu_result1 s
     \<and> m_mcu_last_cmd s' = 0
     \<and> m_mcu_result0 s' = m_mcu_result0 s \<and> m_mcu_result1 s' = m_mcu_result1 s
     \<and> m_mcu_timer s' = Some (from_msec 1)"
proof -
  define s' where "s' = s\<lparr>m_mcu_last_cmd := 0,
            m_mcu_regs := (m_mcu_regs s)
              (3 := (m_mcu_result0 s AND 0xff00ffff) OR 0x00f70000, 4 := m_mcu_result1 s),
            m_mcu_timer := Some (from_msec 1)\<rparr>"
  have run: "mcu_command s True = Inr s'"
    unfolding s'_def by (rule mcu_command_f6 [OF assms])
  have r3: "m_mcu_regs s' 3 = (m_mcu_result0 s AND 0xff00ffff) OR 0x00f70000"
    by (simp add: s'_def)
  have keep: "m_mcu_regs s' 3 AND 0xff00ffff = m_mcu_result0 s AND 0xff00ffff"
    unfolding r3 by (rule status_keep_f7)
  have field: "(ucast (drop_bit 16 (m_mcu_regs s' 3)) :: u8) = 0xf7"
    unfolding r3 by (rule status_field_f7)
  have rest: "m_mcu_regs s' 4 = m_mcu_result1 s" "m_mcu_last_cmd s' = 0"
    "m_mcu_result0 s' = m_mcu_result0 s" "m_mcu_result1 s' = m_mcu_result1 s"
    "m_mcu_timer s' = Some (from_msec 1)"
    by (simp_all add: s'_def)
  from run r3 keep field rest show ?thesis
    by blast
qed

theorem mcu_command_get_result_witness:
  "(ucast (m_mcu_regs (power_on\<lparr>m_mcu_regs := (m_mcu_regs power_on)(0 := 0xf6),
        m_mcu_result0 := 0x123456e0, m_mcu_result1 := 0xdeadbeef\<rparr>) 0 AND 0xff) :: u8) = 0xf6
   \<and> (\<exists>s'. mcu_command (power_on\<lparr>m_mcu_regs := (m_mcu_regs power_on)(0 := 0xf6),
                 m_mcu_result0 := 0x123456e0, m_mcu_result1 := 0xdeadbeef\<rparr>) True = Inr s'
        \<and> m_mcu_regs s' 3 = 0x12f756e0 \<and> m_mcu_regs s' 4 = 0xdeadbeef \<and> m_mcu_last_cmd s' = 0)"
  using mcu_command_get_result
    [of "power_on\<lparr>m_mcu_regs := (m_mcu_regs power_on)(0 := 0xf6),
          m_mcu_result0 := 0x123456e0, m_mcu_result1 := 0xdeadbeef\<rparr>"]
  by (auto simp: power_on_def)

text \<open>
  Claim C6. Every issue of a command byte outside the dispatch table completes: the error
  status \<open>0xf4\<close> is packed into bits 16 to 23 of mailbox register 3 (its other bits
  kept), \<open>m_mcu_result0\<close> and \<open>m_mcu_result1\<close> are unchanged, exactly one entry is
  appended to the log, and the completion timer is armed.
\<close>

theorem mcu_command_unknown_command:
  assumes "cmd = (ucast (m_mcu_regs s 0 AND 0xff) :: u8)"
    and "cmd \<notin> {0xf6, 0xe0, 0xe1, 0xc0, 0xc1, 0xc2, 0xc3, 0xc4, 0xc5, 0xc6, 0xc7, 0xc8, 0xc9}"
  shows "\<exists>s'. mcu_command s True = Inr s'
     \<and> (ucast (drop_bit 16 (m_mcu_regs s' 3)) :: u8) = 0xf4
     \<and> m_mcu_regs s' 3 AND 0xff00ffff = m_mcu_regs s 3 AND 0xff00ffff
     \<and> m_mcu_result0 s' = m_mcu_result0 s \<and> m_mcu_result1 s' = m_mcu_result1 s
     \<and> logerror_out s' = logerror_out s @
          [(''MCU unknown command %08x %08x'' @ [CHR 0x0A], [m_mcu_regs s 0, m_mcu_regs s 1])]
     \<and> m_mcu_timer s' = Some (from_msec 1)
     \<and> m_mcu_last_cmd s' = cmd"
proof -
  define s' where "s' = s\<lparr>m_mcu_last_cmd := cmd,
            logerror_out := logerror_out s @
              [(''MCU unknown command %08x %08x'' @ [CHR 0x0A], [m_mcu_regs s 0, m_mcu_regs s 1])],
            m_mcu_regs := (m_mcu_regs s)(3 := (m_mcu_regs s 3 AND 0xff00ffff) OR 0x00f40000),
            m_mcu_timer := Some (from_msec 1)\<rparr>"
  have run: "mcu_command s True = Inr s'"
    unfolding s'_def by (rule mcu_command_unknown [OF assms])
  have r3: "m_mcu_regs s' 3 = (m_mcu_regs s 3 AND 0xff00ffff) OR 0x00f40000"
    by (simp add: s'_def)
  have keep: "m_mcu_regs s' 3 AND 0xff00ffff = m_mcu_regs s 3 AND 0xff00ffff"
    unfolding r3 by (rule status_keep_f4)
  have field: "(ucast (drop_bit 16 (m_mcu_regs s' 3)) :: u8) = 0xf4"
    unfolding r3 by (rule status_field_f4)
  have rest: "m_mcu_result0 s' = m_mcu_result0 s" "m_mcu_result1 s' = m_mcu_result1 s"
    "logerror_out s' = logerror_out s @
       [(''MCU unknown command %08x %08x'' @ [CHR 0x0A], [m_mcu_regs s 0, m_mcu_regs s 1])]"
    "m_mcu_timer s' = Some (from_msec 1)" "m_mcu_last_cmd s' = cmd"
    by (simp_all add: s'_def)
  from run keep field rest show ?thesis
    by blast
qed

theorem mcu_command_unknown_command_witness:
  "(0xff :: u8) = ucast (m_mcu_regs (power_on\<lparr>m_mcu_regs := (m_mcu_regs power_on)(0 := 0xff),
        m_mcu_result0 := 5, m_mcu_result1 := 6\<rparr>) 0 AND 0xff)
   \<and> (0xff :: u8) \<notin> {0xf6, 0xe0, 0xe1, 0xc0, 0xc1, 0xc2, 0xc3, 0xc4, 0xc5, 0xc6, 0xc7, 0xc8, 0xc9}
   \<and> (\<exists>s'. mcu_command (power_on\<lparr>m_mcu_regs := (m_mcu_regs power_on)(0 := 0xff),
                 m_mcu_result0 := 5, m_mcu_result1 := 6\<rparr>) True = Inr s'
        \<and> m_mcu_regs s' 3 = 0x00f40000 \<and> m_mcu_result0 s' = 5 \<and> m_mcu_result1 s' = 6
        \<and> length (logerror_out s') = 1 \<and> m_mcu_timer s' = Some (from_msec 1))"
  using mcu_command_unknown_command
    [of "0xff" "power_on\<lparr>m_mcu_regs := (m_mcu_regs power_on)(0 := 0xff),
          m_mcu_result0 := 5, m_mcu_result1 := 6\<rparr>"]
  by (auto simp: power_on_def mcu_command_def mcu_switch_def Let_def logerror_def)

text \<open>
  Claim C7, as stated, fails: with no command pending, a nonzero write to the acknowledge
  register does not leave all registers unchanged, since the written value is stored in
  register 5 before the acknowledge is looked at.
\<close>

theorem mcu_w_acknowledge_counterexample:
  "m_mcu_last_cmd power_on = 0
   \<and> m_mcu_regs power_on 5 = 0
   \<and> m_mcu_regs (projr (mcu_w 0x28000 1 0xffffffff power_on)) 5 = 1"
  by (simp add: power_on_def mcu_w_def mcu_command_def Let_def COMBINE_DATA_full)

text \<open>
  Claim C7, amended. For every write to MCU register 5 that leaves a nonzero value there
  (every nonzero full-width write does, and then the value left is the value written): the
  value is stored in register 5; if \<open>m_mcu_last_cmd\<close> is nonzero, the status field (bits
  16 to 23 of register 3) is overwritten with the done code \<open>0xf2\<close>, the timer is armed
  for 100 units (microseconds) and \<open>m_mcu_last_cmd\<close> is cleared; if \<open>m_mcu_last_cmd\<close>
  is 0, nothing but register 5 changes, and the acknowledge step itself is a no-op.
\<close>

theorem mcu_w_acknowledge:
  assumes "unat (drop_bit 15 offset AND 7) = 5"
    and "COMBINE_DATA (m_mcu_regs s 5) data mem_mask \<noteq> 0"
  shows "(m_mcu_last_cmd s \<noteq> 0 \<longrightarrow>
          mcu_w offset data mem_mask s =
            Inr (s\<lparr>m_mcu_regs := (m_mcu_regs s)
                     (5 := COMBINE_DATA (m_mcu_regs s 5) data mem_mask,
                      3 := (m_mcu_regs s 3 AND 0xff00ffff) OR 0x00F20000),
                   m_mcu_timer := Some (from_usec 100),
                   m_mcu_last_cmd := 0\<rparr>))
     \<and> (m_mcu_last_cmd s = 0 \<longrightarrow>
          mcu_w offset data mem_mask s =
            Inr (s\<lparr>m_mcu_regs := (m_mcu_regs s)
                     (5 := COMBINE_DATA (m_mcu_regs s 5) data mem_mask)\<rparr>))
     \<and> (ucast (drop_bit 16 ((m_mcu_regs s 3 AND 0xff00ffff) OR 0x00F20000)) :: u8) = 0xf2
     \<and> COMBINE_DATA (m_mcu_regs s 5) data 0xffffffff = data
     \<and> (m_mcu_last_cmd s = 0 \<longrightarrow> mcu_command s False = Inr s)"
proof (intro conjI)
  show "(ucast (drop_bit 16 ((m_mcu_regs s 3 AND 0xff00ffff) OR 0x00F20000)) :: u8) = 0xf2"
    by (rule status_field_f2)
qed (simp_all add: mcu_w_ack [OF assms] COMBINE_DATA_full mcu_command_ack)

theorem mcu_w_acknowledge_witness:
  "unat (drop_bit 15 (0x28000 :: u32) AND 7) = 5
   \<and> COMBINE_DATA (m_mcu_regs (power_on\<lparr>m_mcu_last_cmd := 0xc1\<rparr>) 5) 1 0xffffffff \<noteq> 0
   \<and> m_mcu_last_cmd (power_on\<lparr>m_mcu_last_cmd := 0xc1\<rparr>) \<noteq> 0
   \<and> mcu_w 0x28000 1 0xffffffff (power_on\<lparr>m_mcu_last_cmd := 0xc1\<rparr>) =
       Inr (power_on\<lparr>m_mcu_regs := (m_mcu_regs power_on)(5 := 1, 3 := 0x00F20000),
              m_mcu_timer := Some (from_usec 100)\<rparr>)
   \<and> mcu_w 0x28000 1 0xffffffff
        (power_on\<lparr>m_mcu_regs := (m_mcu_regs power_on)(5 := 1, 3 := 0x00F20000),
              m_mcu_timer := Some (from_usec 100)\<rparr>) =
       Inr (power_on\<lparr>m_mcu_regs := (m_mcu_regs power_on)(5 := 1, 3 := 0x00F20000),
              m_mcu_timer := Some (from_usec 100)\<rparr>)"
  using mcu_w_acknowledge [of "0x28000" "power_on\<lparr>m_mcu_last_cmd := 0xc1\<rparr>" 1 "0xffffffff"]
    mcu_w_acknowledge [of "0x28000" "power_on\<lparr>m_mcu_regs := (m_mcu_regs power_on)(5 := 1, 3 := 0x00F20000),
              m_mcu_timer := Some (from_usec 100)\<rparr>" 1 "0xffffffff"]
  by (simp add: power_on_def COMBINE_DATA_full fun_eq_iff)

subsection \<open>The card copies\<close>

lemma bank_bit_cases: "unat ((sb::u16) AND 1) = 0 \<and> unat (NOT sb AND 1) = 1
    \<or> unat (sb AND 1) = 1 \<and> unat (NOT sb AND 1) = 0"
  by (cases "even sb") (simp_all add: and_one_eq mod_2_eq_odd)

lemma mcu_share_index_le: "mcu_share_index s i \<le> i + 128"
  using bank_bit_cases [of "m_share_bank s"] by (auto simp: mcu_share_index_def)

lemma present_Some: "present (Some d) \<noteq> - 1" "present None = - 1"
  by (simp_all add: present_def)

lemma mcu_read_card_run:
  assumes "m_memcard_device s slot = Some d"
    and "mcu_share_index s arg3 \<le> 0x100"
  shows "mcu_read_card i slot arg2 arg3 s =
     Inr (s\<lparr>m_shareram := (\<lambda>j. if mcu_share_index s i \<le> j \<and> j < mcu_share_index s arg3
                                then d (arg2 + (j - mcu_share_index s 0)) else m_shareram s j)\<rparr>)"
  using assms
proof (induction i slot arg2 arg3 s rule: mcu_read_card.induct)
  case (1 i slot arg2 arg3 s)
  show ?case
  proof (cases "i < arg3")
    case False
    then have "(\<lambda>j. if mcu_share_index s i \<le> j \<and> j < mcu_share_index s arg3
                  then d (arg2 + (j - mcu_share_index s 0)) else m_shareram s j) = m_shareram s"
      by (auto simp: fun_eq_iff mcu_share_index_def)
    with False show ?thesis
      by (subst mcu_read_card.simps) simp
  next
    case True
    let ?s1 = "s\<lparr>m_shareram := (m_shareram s)
                 (mcu_share_index s i := memcard_read (m_memcard_device s slot) (arg2 + i))\<rparr>"
    from True "1.prems" have inb: "mcu_share_index s i < 0x100"
      by (simp add: mcu_share_index_def)
    have pres: "present (m_memcard_device s slot) \<noteq> - 1"
      by (simp add: "1.prems" present_Some)
    have ih: "mcu_read_card (i + 1) slot arg2 arg3 ?s1 =
       Inr (?s1\<lparr>m_shareram := (\<lambda>j. if mcu_share_index ?s1 (i + 1) \<le> j \<and> j < mcu_share_index ?s1 arg3
                                then d (arg2 + (j - mcu_share_index ?s1 0)) else m_shareram ?s1 j)\<rparr>)"
      using "1.IH"(1) [OF True pres inb] "1.prems" by (simp add: mcu_share_index_def)
    have "mcu_read_card i slot arg2 arg3 s = mcu_read_card (i + 1) slot arg2 arg3 ?s1"
      using True pres inb by (subst mcu_read_card.simps) simp
    also note ih
    finally show ?thesis
      using True "1.prems"
      by (auto simp: mcu_share_index_def memcard_read_def fun_eq_iff intro!: arg_cong [where f = d])
  qed
qed

lemma mcu_read_card_absent:
  "m_memcard_device s slot = None \<Longrightarrow> mcu_read_card i slot arg2 arg3 s = Inr s"
proof (induction i slot arg2 arg3 s rule: mcu_read_card.induct)
  case (1 i slot arg2 arg3 s)
  then show ?case
    by (subst mcu_read_card.simps) (simp add: present_Some)
qed

lemma mcu_read_card_overrun:
  assumes "m_memcard_device s slot = Some d"
    and "0x100 < mcu_share_index s arg3"
    and "mcu_share_index s i \<le> 0x100"
  shows "mcu_read_card i slot arg2 arg3 s = Inl (OutOfRange 0x100)"
  using assms
proof (induction i slot arg2 arg3 s rule: mcu_read_card.induct)
  case (1 i slot arg2 arg3 s)
  from "1.prems" have lt: "i < arg3"
    by (simp add: mcu_share_index_def)
  have pres: "present (m_memcard_device s slot) \<noteq> - 1"
    by (simp add: "1.prems" present_Some)
  show ?case
  proof (cases "mcu_share_index s i < 0x100")
    case True
    let ?s1 = "s\<lparr>m_shareram := (m_shareram s)
                 (mcu_share_index s i := memcard_read (m_memcard_device s slot) (arg2 + i))\<rparr>"
    have "mcu_read_card (i + 1) slot arg2 arg3 ?s1 = Inl (OutOfRange 0x100)"
      using "1.IH"(1) [OF lt pres True] "1.prems" True by (simp add: mcu_share_index_def)
    then show ?thesis
      using lt pres True by (subst mcu_read_card.simps) simp
  next
    case False
    with "1.prems" have "mcu_share_index s i = 0x100"
      by simp
    then show ?thesis
      using lt pres by (subst mcu_read_card.simps) simp
  qed
qed

lemma mcu_write_card_run:
  assumes "m_memcard_device s slot = Some d"
    and "mcu_share_index s arg3 \<le> 0x100"
  shows "mcu_write_card i slot arg2 arg3 s =
     Inr (s\<lparr>m_memcard_device := (m_memcard_device s)
            (slot := Some (\<lambda>k. if arg2 + i \<le> k \<and> k < arg2 + arg3
                                then m_shareram s (mcu_share_index s (k - arg2)) else d k))\<rparr>)"
  using assms
proof (induction i slot arg2 arg3 s arbitrary: d rule: mcu_write_card.induct)
  case (1 i slot arg2 arg3 s)
  show ?case
  proof (cases "i < arg3")
    case False
    then have "(\<lambda>k. if arg2 + i \<le> k \<and> k < arg2 + arg3
                  then m_shareram s (mcu_share_index s (k - arg2)) else d k) = d"
      by (auto simp: fun_eq_iff)
    moreover have "(m_memcard_device s)(slot := Some d) = m_memcard_device s"
      using "1.prems" by (simp add: fun_upd_idem)
    ultimately show ?thesis
      using False by (subst mcu_write_card.simps) simp
  next
    case True
    let ?d1 = "d(arg2 + i := m_shareram s (mcu_share_index s i))"
    let ?s1 = "s\<lparr>m_memcard_device := (m_memcard_device s)
                 (slot := memcard_write (m_memcard_device s slot) (arg2 + i)
                            (m_shareram s (mcu_share_index s i)))\<rparr>"
    from True "1.prems" have inb: "mcu_share_index s i < 0x100"
      by (simp add: mcu_share_index_def)
    have pres: "present (m_memcard_device s slot) \<noteq> - 1"
      by (simp add: "1.prems" present_Some)
    have card1: "m_memcard_device ?s1 slot = Some ?d1"
      by (simp add: "1.prems" memcard_write_def)
    have ih: "mcu_write_card (i + 1) slot arg2 arg3 ?s1 =
       Inr (?s1\<lparr>m_memcard_device := (m_memcard_device ?s1)
            (slot := Some (\<lambda>k. if arg2 + (i + 1) \<le> k \<and> k < arg2 + arg3
                                then m_shareram ?s1 (mcu_share_index ?s1 (k - arg2)) else ?d1 k))\<rparr>)"
      using "1.prems" by (intro "1.IH"(1) [OF True pres inb card1]) (simp add: mcu_share_index_def)
    have "mcu_write_card i slot arg2 arg3 s = mcu_write_card (i + 1) slot arg2 arg3 ?s1"
      using True pres inb by (subst mcu_write_card.simps) simp
    also note ih
    finally show ?thesis
      using True "1.prems"
      by (auto simp: mcu_share_index_def fun_eq_iff)
  qed
qed

lemma mcu_write_card_absent:
  "m_memcard_device s slot = None \<Longrightarrow> mcu_write_card i slot arg2 arg3 s = Inr s"
proof (induction i slot arg2 arg3 s rule: mcu_write_card.induct)
  case (1 i slot arg2 arg3 s)
  then show ?case
    by (subst mcu_write_card.simps) (simp add: present_Some)
qed

lemma mcu_write_card_overrun:
  assumes "m_memcard_device s slot = Some d"
    and "0x100 < mcu_share_index s arg3"
    and "mcu_share_index s i \<le> 0x100"
  shows "mcu_write_card i slot arg2 arg3 s = Inl (OutOfRange 0x100)"
  using assms
proof (induction i slot arg2 arg3 s arbitrary: d rule: mcu_write_card.induct)
  case (1 i slot arg2 arg3 s)
  from "1.prems" have lt: "i < arg3"
    by (simp add: mcu_share_index_def)
  have pres: "present (m_memcard_device s slot) \<noteq> - 1"
    by (simp add: "1.prems" present_Some)
  show ?case
  proof (cases "mcu_share_index s i < 0x100")
    case True
    let ?s1 = "s\<lparr>m_memcard_device := (m_memcard_device s)
                 (slot := memcard_write (m_memcard_device s slot) (arg2 + i)
                            (m_shareram s (mcu_share_index s i)))\<rparr>"
    have card1: "m_memcard_device ?s1 slot = Some (d(arg2 + i := m_shareram s (mcu_share_index s i)))"
      by (simp add: "1.prems" memcard_write_def)
    have "mcu_write_card (i + 1) slot arg2 arg3 ?s1 = Inl (OutOfRange 0x100)"
      using "1.prems" True
      by (intro "1.IH"(1) [OF lt pres True card1]) (simp_all add: mcu_share_index_def)
    then show ?thesis
      using lt pres True by (subst mcu_write_card.simps) simp
  next
    case False
    with "1.prems" have "mcu_share_index s i = 0x100"
      by simp
    then show ?thesis
      using lt pres by (subst mcu_write_card.simps) simp
  qed
qed

lemma mcu_bank_ranges:
  "mcu_share_index s 0 = 0 \<and> unat (m_share_bank s AND 1) * 128 = 128
   \<or> mcu_share_index s 0 = 128 \<and> unat (m_share_bank s AND 1) * 128 = 0"
  using bank_bit_cases [of "m_share_bank s"] by (auto simp: mcu_share_index_def)

text \<open>The share RAM after a card copy, whatever the slot holds.\<close>

lemma mcu_read_card_frame:
  assumes "mcu_read_card 0 slot arg2 arg3 s = Inr s'" and "arg3 \<le> 128"
  shows "m_share_bank s' = m_share_bank s
     \<and> (\<forall>j. \<not> (mcu_share_index s 0 \<le> j \<and> j < mcu_share_index s 128) \<longrightarrow>
              m_shareram s' j = m_shareram s j)"
proof (cases "m_memcard_device s slot")
  case None
  from assms(1) have "s' = s"
    by (simp add: mcu_read_card_absent [OF None])
  then show ?thesis
    by simp
next
  case (Some d)
  from assms(2) have "mcu_share_index s arg3 \<le> 0x100"
    using mcu_share_index_le [of s arg3] by simp
  from mcu_read_card_run [OF Some this, of 0 arg2] assms show ?thesis
    by (auto simp: mcu_share_index_def)
qed

lemma mcu_write_card_frame:
  assumes "mcu_write_card 0 slot arg2 arg3 s = Inr s'" and "arg3 \<le> 128"
  shows "m_share_bank s' = m_share_bank s \<and> m_shareram s' = m_shareram s"
proof (cases "m_memcard_device s slot")
  case None
  from assms(1) have "s' = s"
    by (simp add: mcu_write_card_absent [OF None])
  then show ?thesis
    by simp
next
  case (Some d)
  from assms(2) have "mcu_share_index s arg3 \<le> 0x100"
    using mcu_share_index_le [of s arg3] by simp
  from mcu_write_card_run [OF Some this, of 0 arg2] assms show ?thesis
    by auto
qed

lemma mcu_switch_frame:
  assumes "mcu_switch s cmd arg1 arg2 arg3 = Inr (s2, status, delay)"
    and "cmd = 0xc2 \<or> cmd = 0xc3 \<longrightarrow> unat arg3 \<le> 128"
  shows "m_share_bank s2 = m_share_bank s
     \<and> (\<forall>j. \<not> (mcu_share_index s 0 \<le> j \<and> j < mcu_share_index s 128) \<longrightarrow>
              m_shareram s2 j = m_shareram s j)"
proof -
  consider "cmd = 0xc2" | "cmd = 0xc3" | "cmd \<noteq> 0xc2 \<and> cmd \<noteq> 0xc3"
    by blast
  then show ?thesis
  proof cases
    case 1
    with assms obtain s1 where run: "mcu_read_card 0 (unat (arg1 AND 3)) (unat arg2) (unat arg3) s = Inr s1"
      and s2: "s2 = s1\<lparr>m_mcu_result0 := ucast cmd\<rparr>"
      by (auto simp: mcu_switch_def split: sum.splits)
    from mcu_read_card_frame [OF run] assms(2) 1 s2 show ?thesis
      by simp
  next
    case 2
    with assms obtain s1 where run: "mcu_write_card 0 (unat (arg1 AND 3)) (unat arg2) (unat arg3) s = Inr s1"
      and s2: "s2 = s1\<lparr>m_mcu_result0 := ucast cmd\<rparr>"
      by (auto simp: mcu_switch_def split: sum.splits)
    from mcu_write_card_frame [OF run] assms(2) 2 s2 show ?thesis
      by simp
  next
    case 3
    with assms(1) show ?thesis
      by (auto simp: mcu_switch_def Let_def logerror_def mcu_share_index_def split: if_splits)
  qed
qed

lemma mcu_command_frame:
  assumes "mcu_command s True = Inr s'"
    and "(ucast (m_mcu_regs s 0 AND 0xff) :: u8) \<in> {0xc2, 0xc3} \<longrightarrow>
           unat (ucast (drop_bit 24 (m_mcu_regs s 0)) :: u8) \<le> 128"
  shows "m_share_bank s' = m_share_bank s
     \<and> (\<forall>j. \<not> (mcu_share_index s 0 \<le> j \<and> j < mcu_share_index s 128) \<longrightarrow>
              m_shareram s' j = m_shareram s j)"
proof -
  let ?s1 = "s\<lparr>m_mcu_last_cmd := ucast (m_mcu_regs s 0 AND 0xff)\<rparr>"
  from assms(1) obtain s2 status delay where
    sw: "mcu_switch ?s1 (ucast (m_mcu_regs s 0 AND 0xff)) (ucast (drop_bit 8 (m_mcu_regs s 0)))
           (ucast (drop_bit 16 (m_mcu_regs s 0))) (ucast (drop_bit 24 (m_mcu_regs s 0)))
         = Inr (s2, status, delay)"
    and s': "s' = s2\<lparr>m_mcu_regs := (m_mcu_regs s2)
                     (3 := (m_mcu_regs s2 3 AND 0xff00ffff) OR push_bit 16 (ucast status)),
                   m_mcu_timer := Some (from_msec delay)\<rparr>"
    by (auto simp: mcu_command_def Let_def split: sum.splits)
  from mcu_switch_frame [OF sw] assms(2) s' show ?thesis
    by (simp add: mcu_share_index_def)
qed

lemma mcu_command_read_card:
  assumes cmd: "(ucast (m_mcu_regs s 0 AND 0xff) :: u8) = 0xc2"
    and args: "arg1 = (ucast (drop_bit 8 (m_mcu_regs s 0)) :: u8)"
      "arg2 = (ucast (drop_bit 16 (m_mcu_regs s 0)) :: u8)"
      "arg3 = (ucast (drop_bit 24 (m_mcu_regs s 0)) :: u8)"
    and card: "m_memcard_device s (unat (arg1 AND 3)) = Some d"
  shows "mcu_share_index s (unat arg3) \<le> 0x100 \<Longrightarrow>
     mcu_command s True =
       Inr (s\<lparr>m_mcu_last_cmd := 0xc2,
              m_shareram := (\<lambda>j. if mcu_share_index s 0 \<le> j \<and> j < mcu_share_index s (unat arg3)
                                  then d (unat arg2 + (j - mcu_share_index s 0)) else m_shareram s j),
              m_mcu_result0 := 0xc2,
              m_mcu_regs := (m_mcu_regs s)(3 := (m_mcu_regs s 3 AND 0xff00ffff) OR 0x00f70000),
              m_mcu_timer := Some (from_msec 1)\<rparr>)"
    and "0x100 < mcu_share_index s (unat arg3) \<Longrightarrow> mcu_command s True = Inl (OutOfRange 0x100)"
proof -
  let ?s1 = "s\<lparr>m_mcu_last_cmd := 0xc2\<rparr>"
  have card1: "m_memcard_device ?s1 (unat (arg1 AND 3)) = Some d"
    using card by simp
  have idx: "mcu_share_index ?s1 = mcu_share_index s"
    by (simp add: mcu_share_index_def fun_eq_iff)
  {
    assume fit: "mcu_share_index s (unat arg3) \<le> 0x100"
    then have "mcu_share_index ?s1 (unat arg3) \<le> 0x100"
      by (simp add: idx)
    from mcu_read_card_run [OF card1 this, of 0 "unat arg2"]
    show "mcu_command s True =
       Inr (s\<lparr>m_mcu_last_cmd := 0xc2,
              m_shareram := (\<lambda>j. if mcu_share_index s 0 \<le> j \<and> j < mcu_share_index s (unat arg3)
                                  then d (unat arg2 + (j - mcu_share_index s 0)) else m_shareram s j),
              m_mcu_result0 := 0xc2,
              m_mcu_regs := (m_mcu_regs s)(3 := (m_mcu_regs s 3 AND 0xff00ffff) OR 0x00f70000),
              m_mcu_timer := Some (from_msec 1)\<rparr>)"
      using cmd args by (simp add: mcu_command_def mcu_switch_def Let_def idx cong: if_cong)
  }
  {
    assume "0x100 < mcu_share_index s (unat arg3)"
    then have over: "0x100 < mcu_share_index ?s1 (unat arg3)"
      by (simp add: idx)
    have "mcu_share_index ?s1 0 \<le> 0x100"
      using mcu_share_index_le [of ?s1 0] by simp
    from mcu_read_card_overrun [OF card1 over this, of "unat arg2"]
    show "mcu_command s True = Inl (OutOfRange 0x100)"
      using cmd args by (simp add: mcu_command_def mcu_switch_def Let_def)
  }
qed

lemma mcu_command_write_card:
  assumes cmd: "(ucast (m_mcu_regs s 0 AND 0xff) :: u8) = 0xc3"
    and args: "arg1 = (ucast (drop_bit 8 (m_mcu_regs s 0)) :: u8)"
      "arg2 = (ucast (drop_bit 16 (m_mcu_regs s 0)) :: u8)"
      "arg3 = (ucast (drop_bit 24 (m_mcu_regs s 0)) :: u8)"
    and card: "m_memcard_device s (unat (arg1 AND 3)) = Some d"
  shows "mcu_share_index s (unat arg3) \<le> 0x100 \<Longrightarrow>
     mcu_command s True =
       Inr (s\<lparr>m_mcu_last_cmd := 0xc3,
              m_memcard_device := (m_memcard_device s)
                (unat (arg1 AND 3) :=
                   Some (\<lambda>k. if unat arg2 \<le> k \<and> k < unat arg2 + unat arg3
                              then m_shareram s (mcu_share_index s (k - unat arg2)) else d k)),
              m_mcu_result0 := 0xc3,
              m_mcu_regs := (m_mcu_regs s)(3 := (m_mcu_regs s 3 AND 0xff00ffff) OR 0x00f70000),
              m_mcu_timer := Some (from_msec 1)\<rparr>)"
    and "0x100 < mcu_share_index s (unat arg3) \<Longrightarrow> mcu_command s True = Inl (OutOfRange 0x100)"
proof -
  let ?s1 = "s\<lparr>m_mcu_last_cmd := 0xc3\<rparr>"
  have card1: "m_memcard_device ?s1 (unat (arg1 AND 3)) = Some d"
    using card by simp
  have idx: "mcu_share_index ?s1 = mcu_share_index s"
    by (simp add: mcu_share_index_def fun_eq_iff)
  {
    assume fit: "mcu_share_index s (unat arg3) \<le> 0x100"
    then have "mcu_share_index ?s1 (unat arg3) \<le> 0x100"
      by (simp add: idx)
    from mcu_write_card_run [OF card1 this, of 0 "unat arg2"]
    show "mcu_command s True =
       Inr (s\<lparr>m_mcu_last_cmd := 0xc3,
              m_memcard_device := (m_memcard_device s)
                (unat (arg1 AND 3) :=
                   Some (\<lambda>k. if unat arg2 \<le> k \<and> k < unat arg2 + unat arg3
                              then m_shareram s (mcu_share_index s (k - unat arg2)) else d k)),
              m_mcu_result0 := 0xc3,
              m_mcu_regs := (m_mcu_regs s)(3 := (m_mcu_regs s 3 AND 0xff00ffff) OR 0x00f70000),
              m_mcu_timer := Some (from_msec 1)\<rparr>)"
      using cmd args by (simp add: mcu_command_def mcu_switch_def Let_def idx cong: if_cong)
  }
  {
    assume "0x100 < mcu_share_index s (unat arg3)"
    then have over: "0x100 < mcu_share_index ?s1 (unat arg3)"
      by (simp add: idx)
    have "mcu_share_index ?s1 0 \<le> 0x100"
      using mcu_share_index_le [of ?s1 0] by simp
    from mcu_write_card_overrun [OF card1 over this, of "unat arg2"]
    show "mcu_command s True = Inl (OutOfRange 0x100)"
      using cmd args by (simp add: mcu_command_def mcu_switch_def Let_def)
  }
qed

lemma mcu_command_fill:
  assumes "(ucast (m_mcu_regs s 0 AND 0xff) :: u8) = 0xe1"
    and "(ucast (drop_bit 16 (m_mcu_regs s 0)) :: u8) = 2"
  shows "mcu_command s True =
       Inr (s\<lparr>m_mcu_last_cmd := 0xe1,
              m_shareram := (\<lambda>j. if mcu_share_index s 0 \<le> j \<and> j < mcu_share_index s 0 + 128
                                  then ucast (drop_bit 24 (m_mcu_regs s 0)) else m_shareram s j),
              m_mcu_result0 := 0xe1, m_mcu_result1 := 0,
              m_mcu_regs := (m_mcu_regs s)(3 := (m_mcu_regs s 3 AND 0xff00ffff) OR 0x00f70000),
              m_mcu_timer := Some (from_msec 1)\<rparr>)"
proof -
  have idx: "mcu_share_index (s\<lparr>m_mcu_last_cmd := 0xe1\<rparr>) = mcu_share_index s"
    by (simp add: mcu_share_index_def fun_eq_iff)
  from assms show ?thesis
    by (simp add: mcu_command_def mcu_switch_def Let_def idx cong: if_cong)
qed

subsection \<open>The two banks\<close>

text \<open>
  Inside the banks the two agents are kept apart. For every bank selector and logical
  offset below 128, a main-processor read or write accesses physical byte
  \<open>offset + (m_share_bank & 1) * 128\<close>; an MCU-side access at logical offset \<open>i\<close> below
  128 is at \<open>i + (~m_share_bank & 1) * 128\<close>, inside the array and never the main
  processor's byte. The \<open>0xE1\<close> mode-2 fill writes the 128 bytes of the MCU's bank, and
  no command whose card copy is at most 128 bytes long changes what the main processor
  reads.
\<close>

lemma share_banks_never_alias:
  assumes "offset < 128"
  shows "shareram_r s offset = Inr (m_shareram s (offset + unat (m_share_bank s AND 1) * 128))
     \<and> shareram_w offset data s =
         Inr (s\<lparr>m_shareram := (m_shareram s)(offset + unat (m_share_bank s AND 1) * 128 := data)\<rparr>)
     \<and> (\<forall>i<128. mcu_share_index s i = i + unat (NOT (m_share_bank s) AND 1) * 128
                 \<and> mcu_share_index s i < 0x100
                 \<and> mcu_share_index s i \<noteq> offset + unat (m_share_bank s AND 1) * 128)
     \<and> (\<forall>s'. mcu_command s True = Inr s'
              \<and> ((ucast (m_mcu_regs s 0 AND 0xff) :: u8) \<in> {0xc2, 0xc3} \<longrightarrow>
                   unat (ucast (drop_bit 24 (m_mcu_regs s 0)) :: u8) \<le> 128)
            \<longrightarrow> shareram_r s' offset = shareram_r s offset)
     \<and> ((ucast (m_mcu_regs s 0 AND 0xff) :: u8) = 0xe1
          \<and> (ucast (drop_bit 16 (m_mcu_regs s 0)) :: u8) = 2 \<longrightarrow>
          (\<exists>s'. mcu_command s True = Inr s'
             \<and> (\<forall>i<128. m_shareram s' (mcu_share_index s i) = ucast (drop_bit 24 (m_mcu_regs s 0)))))"
proof (intro conjI allI impI)
  from assms mcu_bank_ranges [of s]
  show "shareram_r s offset = Inr (m_shareram s (offset + unat (m_share_bank s AND 1) * 128))"
    by (auto simp: shareram_r_def Let_def)
  from assms mcu_bank_ranges [of s]
  show "shareram_w offset data s =
         Inr (s\<lparr>m_shareram := (m_shareram s)(offset + unat (m_share_bank s AND 1) * 128 := data)\<rparr>)"
    by (auto simp: shareram_w_def Let_def)
next
  fix i :: nat
  assume "i < 128"
  with assms mcu_bank_ranges [of s]
  show "mcu_share_index s i = i + unat (NOT (m_share_bank s) AND 1) * 128"
    "mcu_share_index s i < 0x100"
    "mcu_share_index s i \<noteq> offset + unat (m_share_bank s AND 1) * 128"
    by (auto simp: mcu_share_index_def)
next
  fix s'
  assume run: "mcu_command s True = Inr s'
      \<and> ((ucast (m_mcu_regs s 0 AND 0xff) :: u8) \<in> {0xc2, 0xc3} \<longrightarrow>
           unat (ucast (drop_bit 24 (m_mcu_regs s 0)) :: u8) \<le> 128)"
  then have frame: "m_share_bank s' = m_share_bank s"
    "\<forall>j. \<not> (mcu_share_index s 0 \<le> j \<and> j < mcu_share_index s 128) \<longrightarrow>
              m_shareram s' j = m_shareram s j"
    using mcu_command_frame [of s s'] by blast+
  from assms mcu_bank_ranges [of s]
  have "\<not> (mcu_share_index s 0 \<le> offset + unat (m_share_bank s AND 1) * 128
        \<and> offset + unat (m_share_bank s AND 1) * 128 < mcu_share_index s 128)"
    by (auto simp: mcu_share_index_def)
  with frame show "shareram_r s' offset = shareram_r s offset"
    by (simp add: shareram_r_def Let_def)
next
  assume "(ucast (m_mcu_regs s 0 AND 0xff) :: u8) = 0xe1
          \<and> (ucast (drop_bit 16 (m_mcu_regs s 0)) :: u8) = 2"
  then have fill: "mcu_command s True =
       Inr (s\<lparr>m_mcu_last_cmd := 0xe1,
              m_shareram := (\<lambda>j. if mcu_share_index s 0 \<le> j \<and> j < mcu_share_index s 0 + 128
                                  then ucast (drop_bit 24 (m_mcu_regs s 0)) else m_shareram s j),
              m_mcu_result0 := 0xe1, m_mcu_result1 := 0,
              m_mcu_regs := (m_mcu_regs s)(3 := (m_mcu_regs s 3 AND 0xff00ffff) OR 0x00f70000),
              m_mcu_timer := Some (from_msec 1)\<rparr>)"
    by (intro mcu_command_fill) simp_all
  show "\<exists>s'. mcu_command s True = Inr s'
             \<and> (\<forall>i<128. m_shareram s' (mcu_share_index s i) = ucast (drop_bit 24 (m_mcu_regs s 0)))"
    unfolding fill by (simp add: mcu_share_index_def)
qed

lemma share_banks_never_alias_example:
  "(5 :: nat) < 128
   \<and> shareram_w 5 0x42 power_on = Inr (power_on\<lparr>m_shareram := (m_shareram power_on)(5 := 0x42)\<rparr>)
   \<and> mcu_share_index power_on 5 = 133
   \<and> shareram_r (power_on\<lparr>m_shareram := (m_shareram power_on)(133 := 0x42)\<rparr>) 5 = Inr 0
   \<and> (ucast (m_mcu_regs (power_on\<lparr>m_mcu_regs := (m_mcu_regs power_on)(0 := 0x550200e1)\<rparr>) 0 AND 0xff) :: u8)
       = 0xe1
   \<and> (ucast (drop_bit 16 (m_mcu_regs (power_on\<lparr>m_mcu_regs := (m_mcu_regs power_on)(0 := 0x550200e1)\<rparr>) 0))
        :: u8) = 2
   \<and> (\<exists>s'. mcu_command (power_on\<lparr>m_mcu_regs := (m_mcu_regs power_on)(0 := 0x550200e1)\<rparr>) True = Inr s'
        \<and> m_shareram s' 133 = 0x55 \<and> shareram_r s' 5 = Inr 0)"
proof -
  let ?fill = "power_on\<lparr>m_mcu_regs := (m_mcu_regs power_on)(0 := 0x550200e1)\<rparr>"
  have cmd: "(ucast (m_mcu_regs ?fill 0 AND 0xff) :: u8) = 0xe1"
    "(ucast (drop_bit 16 (m_mcu_regs ?fill 0)) :: u8) = 2"
    "(ucast (drop_bit 24 (m_mcu_regs ?fill 0)) :: u8) = 0x55"
    by (simp_all add: power_on_def)
  have idx: "mcu_share_index ?fill 5 = 133"
    by (simp add: mcu_share_index_def power_on_def)
  have before: "shareram_r ?fill 5 = Inr 0"
    by (simp add: shareram_r_def power_on_def)
  note inst = share_banks_never_alias [of 5 ?fill 0]
  from inst cmd obtain s' where run: "mcu_command ?fill True = Inr s'"
    and fill: "\<forall>i<128. m_shareram s' (mcu_share_index ?fill i) = 0x55"
    by auto
  from fill [rule_format, of 5] idx have "m_shareram s' 133 = 0x55"
    by simp
  moreover from inst run cmd(1) before have "shareram_r s' 5 = Inr 0"
    by simp
  ultimately have mcu: "\<exists>s'. mcu_command ?fill True = Inr s'
        \<and> m_shareram s' 133 = 0x55 \<and> shareram_r s' 5 = Inr 0"
    using run by blast
  from share_banks_never_alias [of 5 power_on "0x42"]
    share_banks_never_alias [of 5 "power_on\<lparr>m_shareram := (m_shareram power_on)(133 := 0x42)\<rparr>" 0]
  have main: "shareram_w 5 0x42 power_on = Inr (power_on\<lparr>m_shareram := (m_shareram power_on)(5 := 0x42)\<rparr>)"
    "mcu_share_index power_on 5 = 133"
    "shareram_r (power_on\<lparr>m_shareram := (m_shareram power_on)(133 := 0x42)\<rparr>) 5 = Inr 0"
    by (simp_all add: power_on_def)
  from main cmd(1,2) mcu show ?thesis
    by simp
qed

text \<open>
  Claim C3. The two agents' accesses must never alias, and the code breaks this: the
  card-copy loops of \<open>0xC2\<close> and \<open>0xC3\<close> run up to \<open>arg3\<close> with no bound at the
  128 bytes of a bank, unlike the \<open>0xE1\<close> fill. With the bank selector 1 the main
  processor's logical offset 0 is physical byte 128 and the MCU's base is 0. A card read
  (\<open>0xC2\<close>) of 129 bytes then changes what the main processor reads at offset 0 from 0 to
  the card's byte \<open>0x81\<close>; a card save (\<open>0xC3\<close>) of 129 bytes stores the main
  processor's byte (\<open>0x77\<close>) on the card. With the bank selector 0 the same 129-byte read
  runs past the end of the array.
\<close>

theorem mcu_card_copy_leaves_bank:
  "shareram_r
     (power_on\<lparr>m_share_bank := 1,
        m_memcard_device := (m_memcard_device power_on)(0 := Some test_card),
        m_mcu_regs := (m_mcu_regs power_on)(0 := 0x810000c2)\<rparr>) 0 = Inr 0
   \<and> shareram_r (projr (mcu_command
     (power_on\<lparr>m_share_bank := 1,
        m_memcard_device := (m_memcard_device power_on)(0 := Some test_card),
        m_mcu_regs := (m_mcu_regs power_on)(0 := 0x810000c2)\<rparr>) True)) 0 = Inr 0x81
   \<and> shareram_r
     (power_on\<lparr>m_share_bank := 1, m_shareram := (m_shareram power_on)(128 := 0x77),
        m_memcard_device := (m_memcard_device power_on)(0 := Some test_card),
        m_mcu_regs := (m_mcu_regs power_on)(0 := 0x810000c3)\<rparr>) 0 = Inr 0x77
   \<and> memcard_read (m_memcard_device (projr (mcu_command
     (power_on\<lparr>m_share_bank := 1, m_shareram := (m_shareram power_on)(128 := 0x77),
        m_memcard_device := (m_memcard_device power_on)(0 := Some test_card),
        m_mcu_regs := (m_mcu_regs power_on)(0 := 0x810000c3)\<rparr>) True)) 0) 128 = 0x77
   \<and> mcu_command
     (power_on\<lparr>m_share_bank := 0,
        m_memcard_device := (m_memcard_device power_on)(0 := Some test_card),
        m_mcu_regs := (m_mcu_regs power_on)(0 := 0x810000c2)\<rparr>) True = Inl (OutOfRange 0x100)"
proof -
  let ?rd = "power_on\<lparr>m_share_bank := 1,
        m_memcard_device := (m_memcard_device power_on)(0 := Some test_card),
        m_mcu_regs := (m_mcu_regs power_on)(0 := 0x810000c2)\<rparr>"
  let ?wr = "power_on\<lparr>m_share_bank := 1, m_shareram := (m_shareram power_on)(128 := 0x77),
        m_memcard_device := (m_memcard_device power_on)(0 := Some test_card),
        m_mcu_regs := (m_mcu_regs power_on)(0 := 0x810000c3)\<rparr>"
  let ?ov = "power_on\<lparr>m_share_bank := 0,
        m_memcard_device := (m_memcard_device power_on)(0 := Some test_card),
        m_mcu_regs := (m_mcu_regs power_on)(0 := 0x810000c2)\<rparr>"
  have bank: "mcu_share_index ?rd i = i" "mcu_share_index ?wr i = i" "mcu_share_index ?ov i = i + 128" for i
    by (simp_all add: mcu_share_index_def power_on_def)
  have rd: "mcu_command ?rd True =
       Inr (?rd\<lparr>m_mcu_last_cmd := 0xc2,
              m_shareram := (\<lambda>j. if mcu_share_index ?rd 0 \<le> j \<and> j < mcu_share_index ?rd (unat (0x81 :: u8))
                                  then test_card (unat (0 :: u8) + (j - mcu_share_index ?rd 0))
                                  else m_shareram ?rd j),
              m_mcu_result0 := 0xc2,
              m_mcu_regs := (m_mcu_regs ?rd)(3 := (m_mcu_regs ?rd 3 AND 0xff00ffff) OR 0x00f70000),
              m_mcu_timer := Some (from_msec 1)\<rparr>)"
    by (rule mcu_command_read_card(1) [where ?arg1.0 = 0]) (simp_all add: bank)
  have wr: "mcu_command ?wr True =
       Inr (?wr\<lparr>m_mcu_last_cmd := 0xc3,
              m_memcard_device := (m_memcard_device ?wr)
                (unat ((0 :: u8) AND 3) :=
                   Some (\<lambda>k. if unat (0 :: u8) \<le> k \<and> k < unat (0 :: u8) + unat (0x81 :: u8)
                              then m_shareram ?wr (mcu_share_index ?wr (k - unat (0 :: u8)))
                              else test_card k)),
              m_mcu_result0 := 0xc3,
              m_mcu_regs := (m_mcu_regs ?wr)(3 := (m_mcu_regs ?wr 3 AND 0xff00ffff) OR 0x00f70000),
              m_mcu_timer := Some (from_msec 1)\<rparr>)"
    by (rule mcu_command_write_card(1)) (simp_all add: bank)
  have ov: "mcu_command ?ov True = Inl (OutOfRange 0x100)"
    by (rule mcu_command_read_card(2) [where ?arg1.0 = 0 and ?arg2.0 = 0 and ?arg3.0 = "0x81" and d = test_card]) (simp_all add: bank)
  have a: "shareram_r ?rd 0 = Inr 0" "shareram_r ?wr 0 = Inr 0x77"
    by (simp_all add: shareram_r_def power_on_def)
  have b: "shareram_r (projr (mcu_command ?rd True)) 0 = Inr 0x81"
    unfolding rd by (simp add: shareram_r_def mcu_share_index_def test_card_def power_on_def)
  have c: "memcard_read (m_memcard_device (projr (mcu_command ?wr True)) 0) 128 = 0x77"
    unfolding wr by (simp add: memcard_read_def mcu_share_index_def power_on_def)
  from a b c ov show ?thesis
    by simp
qed

subsection \<open>The bounds of the card copies\<close>

lemma mcu_copy_fits_iff:
  "mcu_share_index s (unat (arg3 :: u8)) \<le> 0x100 \<longleftrightarrow>
     \<not> (128 < unat arg3 \<and> NOT (m_share_bank s) AND 1 = 1)"
proof -
  have small: "unat arg3 < 256"
    using unsigned_less [of arg3, where 'a = nat] by simp
  from bank_bit_cases [of "m_share_bank s"]
  consider "unat (NOT (m_share_bank s) AND 1) = 1" | "unat (NOT (m_share_bank s) AND 1) = 0"
    by auto
  then show ?thesis
  proof cases
    case 1
    then have "NOT (m_share_bank s) AND 1 = 1"
      by (simp add: word_unat_eq_iff)
    with 1 show ?thesis
      by (auto simp: mcu_share_index_def)
  next
    case 2
    then have "NOT (m_share_bank s) AND 1 = 0"
      by (simp only: unat_0_iff)
    with 2 small show ?thesis
      by (simp add: mcu_share_index_def)
  qed
qed

text \<open>
  Claim C9. For every issue of command \<open>0xC2\<close> or \<open>0xC3\<close> with a card in slot
  \<open>arg1 & 3\<close>, the share RAM is accessed at \<open>i + (~m_share_bank & 1) * 128\<close> for every
  \<open>i\<close> below \<open>arg3\<close>: \<open>0xC2\<close> stores the card's byte \<open>arg2 + i\<close> there, \<open>0xC3\<close>
  saves the byte found there to the card's offset \<open>arg2 + i\<close>. Whenever the last index
  fits the 256-byte array the command completes with exactly these copies (the state after
  it is given in full), and it fits unless \<open>arg3\<close> is above 128 and the opposite bank is
  the upper half; so it fits whenever \<open>arg3\<close> is at most 128. If \<open>arg3\<close> is above 128
  and the opposite bank is the upper half, the index for \<open>i = 128\<close> is 256, past the end
  of the array.
\<close>

theorem mcu_card_copy_indices:
  assumes cmd: "cmd = (ucast (m_mcu_regs s 0 AND 0xff) :: u8)" "cmd = 0xc2 \<or> cmd = 0xc3"
    and args: "arg1 = (ucast (drop_bit 8 (m_mcu_regs s 0)) :: u8)"
      "arg2 = (ucast (drop_bit 16 (m_mcu_regs s 0)) :: u8)"
      "arg3 = (ucast (drop_bit 24 (m_mcu_regs s 0)) :: u8)"
    and card: "m_memcard_device s (unat (arg1 AND 3)) = Some d"
  shows "(\<forall>i. mcu_share_index s i = i + unat (NOT (m_share_bank s) AND 1) * 128)
     \<and> (mcu_share_index s (unat arg3) \<le> 0x100 \<longleftrightarrow>
          \<not> (128 < unat arg3 \<and> NOT (m_share_bank s) AND 1 = 1))
     \<and> (unat arg3 \<le> 128 \<longrightarrow> mcu_share_index s (unat arg3) \<le> 0x100)
     \<and> (mcu_share_index s (unat arg3) \<le> 0x100 \<longrightarrow>
          (\<forall>i < unat arg3. mcu_share_index s i < 0x100)
          \<and> (cmd = 0xc2 \<longrightarrow>
               mcu_command s True =
                 Inr (s\<lparr>m_mcu_last_cmd := 0xc2,
                        m_shareram :=
                          (\<lambda>j. if mcu_share_index s 0 \<le> j \<and> j < mcu_share_index s (unat arg3)
                                then d (unat arg2 + (j - mcu_share_index s 0)) else m_shareram s j),
                        m_mcu_result0 := 0xc2,
                        m_mcu_regs := (m_mcu_regs s)(3 := (m_mcu_regs s 3 AND 0xff00ffff) OR 0x00f70000),
                        m_mcu_timer := Some (from_msec 1)\<rparr>))
          \<and> (cmd = 0xc3 \<longrightarrow>
               mcu_command s True =
                 Inr (s\<lparr>m_mcu_last_cmd := 0xc3,
                        m_memcard_device := (m_memcard_device s)
                          (unat (arg1 AND 3) :=
                             Some (\<lambda>k. if unat arg2 \<le> k \<and> k < unat arg2 + unat arg3
                                        then m_shareram s (mcu_share_index s (k - unat arg2)) else d k)),
                        m_mcu_result0 := 0xc3,
                        m_mcu_regs := (m_mcu_regs s)(3 := (m_mcu_regs s 3 AND 0xff00ffff) OR 0x00f70000),
                        m_mcu_timer := Some (from_msec 1)\<rparr>))
          \<and> (\<exists>s'. mcu_command s True = Inr s'
               \<and> (cmd = 0xc2 \<longrightarrow>
                    (\<forall>i < unat arg3. m_shareram s' (mcu_share_index s i) = d (unat arg2 + i))
                    \<and> (\<forall>j. \<not> (mcu_share_index s 0 \<le> j \<and> j < mcu_share_index s (unat arg3)) \<longrightarrow>
                            m_shareram s' j = m_shareram s j))
               \<and> (cmd = 0xc3 \<longrightarrow>
                    (\<exists>d'. m_memcard_device s' (unat (arg1 AND 3)) = Some d'
                       \<and> (\<forall>i < unat arg3. d' (unat arg2 + i) = m_shareram s (mcu_share_index s i))
                       \<and> (\<forall>k. \<not> (unat arg2 \<le> k \<and> k < unat arg2 + unat arg3) \<longrightarrow> d' k = d k))
                    \<and> m_shareram s' = m_shareram s)))
     \<and> (128 < unat arg3 \<and> NOT (m_share_bank s) AND 1 = 1 \<longrightarrow>
          mcu_share_index s 128 = 0x100 \<and> mcu_command s True = Inl (OutOfRange 0x100))"
proof (intro conjI)
  show "\<forall>i. mcu_share_index s i = i + unat (NOT (m_share_bank s) AND 1) * 128"
    by (simp add: mcu_share_index_def)
next
  show "mcu_share_index s (unat arg3) \<le> 0x100 \<longleftrightarrow>
          \<not> (128 < unat arg3 \<and> NOT (m_share_bank s) AND 1 = 1)"
    by (rule mcu_copy_fits_iff)
next
  show "unat arg3 \<le> 128 \<longrightarrow> mcu_share_index s (unat arg3) \<le> 0x100"
    by (simp add: mcu_copy_fits_iff)
next
  show "mcu_share_index s (unat arg3) \<le> 0x100 \<longrightarrow>
          (\<forall>i < unat arg3. mcu_share_index s i < 0x100)
          \<and> (cmd = 0xc2 \<longrightarrow>
               mcu_command s True =
                 Inr (s\<lparr>m_mcu_last_cmd := 0xc2,
                        m_shareram :=
                          (\<lambda>j. if mcu_share_index s 0 \<le> j \<and> j < mcu_share_index s (unat arg3)
                                then d (unat arg2 + (j - mcu_share_index s 0)) else m_shareram s j),
                        m_mcu_result0 := 0xc2,
                        m_mcu_regs := (m_mcu_regs s)(3 := (m_mcu_regs s 3 AND 0xff00ffff) OR 0x00f70000),
                        m_mcu_timer := Some (from_msec 1)\<rparr>))
          \<and> (cmd = 0xc3 \<longrightarrow>
               mcu_command s True =
                 Inr (s\<lparr>m_mcu_last_cmd := 0xc3,
                        m_memcard_device := (m_memcard_device s)
                          (unat (arg1 AND 3) :=
                             Some (\<lambda>k. if unat arg2 \<le> k \<and> k < unat arg2 + unat arg3
                                        then m_shareram s (mcu_share_index s (k - unat arg2)) else d k)),
                        m_mcu_result0 := 0xc3,
                        m_mcu_regs := (m_mcu_regs s)(3 := (m_mcu_regs s 3 AND 0xff00ffff) OR 0x00f70000),
                        m_mcu_timer := Some (from_msec 1)\<rparr>))
          \<and> (\<exists>s'. mcu_command s True = Inr s'
               \<and> (cmd = 0xc2 \<longrightarrow>
                    (\<forall>i < unat arg3. m_shareram s' (mcu_share_index s i) = d (unat arg2 + i))
                    \<and> (\<forall>j. \<not> (mcu_share_index s 0 \<le> j \<and> j < mcu_share_index s (unat arg3)) \<longrightarrow>
                            m_shareram s' j = m_shareram s j))
               \<and> (cmd = 0xc3 \<longrightarrow>
                    (\<exists>d'. m_memcard_device s' (unat (arg1 AND 3)) = Some d'
                       \<and> (\<forall>i < unat arg3. d' (unat arg2 + i) = m_shareram s (mcu_share_index s i))
                       \<and> (\<forall>k. \<not> (unat arg2 \<le> k \<and> k < unat arg2 + unat arg3) \<longrightarrow> d' k = d k))
                    \<and> m_shareram s' = m_shareram s))"
  proof (intro impI conjI)
    assume fit: "mcu_share_index s (unat arg3) \<le> 0x100"
    then show "\<forall>i < unat arg3. mcu_share_index s i < 0x100"
      by (simp add: mcu_share_index_def)
    show "mcu_command s True =
                 Inr (s\<lparr>m_mcu_last_cmd := 0xc2,
                        m_shareram :=
                          (\<lambda>j. if mcu_share_index s 0 \<le> j \<and> j < mcu_share_index s (unat arg3)
                                then d (unat arg2 + (j - mcu_share_index s 0)) else m_shareram s j),
                        m_mcu_result0 := 0xc2,
                        m_mcu_regs := (m_mcu_regs s)(3 := (m_mcu_regs s 3 AND 0xff00ffff) OR 0x00f70000),
                        m_mcu_timer := Some (from_msec 1)\<rparr>)"
      if "cmd = 0xc2"
    proof -
      from that cmd(1) have "(ucast (m_mcu_regs s 0 AND 0xff) :: u8) = 0xc2"
        by simp
      from mcu_command_read_card(1) [OF this args card fit] show ?thesis .
    qed
    show "mcu_command s True =
                 Inr (s\<lparr>m_mcu_last_cmd := 0xc3,
                        m_memcard_device := (m_memcard_device s)
                          (unat (arg1 AND 3) :=
                             Some (\<lambda>k. if unat arg2 \<le> k \<and> k < unat arg2 + unat arg3
                                        then m_shareram s (mcu_share_index s (k - unat arg2)) else d k)),
                        m_mcu_result0 := 0xc3,
                        m_mcu_regs := (m_mcu_regs s)(3 := (m_mcu_regs s 3 AND 0xff00ffff) OR 0x00f70000),
                        m_mcu_timer := Some (from_msec 1)\<rparr>)"
      if "cmd = 0xc3"
    proof -
      from that cmd(1) have "(ucast (m_mcu_regs s 0 AND 0xff) :: u8) = 0xc3"
        by simp
      from mcu_command_write_card(1) [OF this args card fit] show ?thesis .
    qed
    from cmd(2) show "\<exists>s'. mcu_command s True = Inr s'
               \<and> (cmd = 0xc2 \<longrightarrow>
                    (\<forall>i < unat arg3. m_shareram s' (mcu_share_index s i) = d (unat arg2 + i))
                    \<and> (\<forall>j. \<not> (mcu_share_index s 0 \<le> j \<and> j < mcu_share_index s (unat arg3)) \<longrightarrow>
                            m_shareram s' j = m_shareram s j))
               \<and> (cmd = 0xc3 \<longrightarrow>
                    (\<exists>d'. m_memcard_device s' (unat (arg1 AND 3)) = Some d'
                       \<and> (\<forall>i < unat arg3. d' (unat arg2 + i) = m_shareram s (mcu_share_index s i))
                       \<and> (\<forall>k. \<not> (unat arg2 \<le> k \<and> k < unat arg2 + unat arg3) \<longrightarrow> d' k = d k))
                    \<and> m_shareram s' = m_shareram s)"
    proof
      assume c2: "cmd = 0xc2"
      with cmd(1) have "(ucast (m_mcu_regs s 0 AND 0xff) :: u8) = 0xc2"
        by simp
      from mcu_command_read_card(1) [OF this args card fit] c2 show ?thesis
        by (simp add: mcu_share_index_def)
    next
      assume c3: "cmd = 0xc3"
      with cmd(1) have "(ucast (m_mcu_regs s 0 AND 0xff) :: u8) = 0xc3"
        by simp
      from mcu_command_write_card(1) [OF this args card fit] c3 show ?thesis
        by (simp add: mcu_share_index_def)
    qed
  qed
next
  show "128 < unat arg3 \<and> NOT (m_share_bank s) AND 1 = 1 \<longrightarrow>
          mcu_share_index s 128 = 0x100 \<and> mcu_command s True = Inl (OutOfRange 0x100)"
  proof (intro impI conjI)
    assume long: "128 < unat arg3 \<and> NOT (m_share_bank s) AND 1 = 1"
    then show "mcu_share_index s 128 = 0x100"
      by (simp add: mcu_share_index_def)
    from long have over: "0x100 < mcu_share_index s (unat arg3)"
      by (simp add: mcu_share_index_def)
    from cmd(2) show "mcu_command s True = Inl (OutOfRange 0x100)"
    proof
      assume "cmd = 0xc2"
      with cmd(1) have "(ucast (m_mcu_regs s 0 AND 0xff) :: u8) = 0xc2"
        by simp
      from mcu_command_read_card(2) [OF this args card over] show ?thesis .
    next
      assume "cmd = 0xc3"
      with cmd(1) have "(ucast (m_mcu_regs s 0 AND 0xff) :: u8) = 0xc3"
        by simp
      from mcu_command_write_card(2) [OF this args card over] show ?thesis .
    qed
  qed
qed

theorem mcu_card_copy_indices_witness:
  "(0xc2 :: u8) = ucast (m_mcu_regs (power_on\<lparr>m_memcard_device := (m_memcard_device power_on)(0 := Some test_card),
        m_mcu_regs := (m_mcu_regs power_on)(0 := 0x810500c2)\<rparr>) 0 AND 0xff)
   \<and> m_memcard_device (power_on\<lparr>m_memcard_device := (m_memcard_device power_on)(0 := Some test_card),
        m_mcu_regs := (m_mcu_regs power_on)(0 := 0x810500c2)\<rparr>) (unat ((0 :: u8) AND 3)) = Some test_card
   \<and> 128 < unat (0x81 :: u8)
   \<and> NOT (m_share_bank (power_on\<lparr>m_memcard_device := (m_memcard_device power_on)(0 := Some test_card),
        m_mcu_regs := (m_mcu_regs power_on)(0 := 0x810500c2)\<rparr>)) AND 1 = 1
   \<and> mcu_command (power_on\<lparr>m_memcard_device := (m_memcard_device power_on)(0 := Some test_card),
        m_mcu_regs := (m_mcu_regs power_on)(0 := 0x810500c2)\<rparr>) True = Inl (OutOfRange 0x100)
   \<and> unat (0x03 :: u8) \<le> 128
   \<and> (\<exists>s'. mcu_command (power_on\<lparr>m_memcard_device := (m_memcard_device power_on)(0 := Some test_card),
        m_mcu_regs := (m_mcu_regs power_on)(0 := 0x030500c2)\<rparr>) True = Inr s'
        \<and> m_shareram s' 128 = 6 \<and> m_shareram s' 129 = 7 \<and> m_shareram s' 130 = 8
        \<and> m_shareram s' 131 = 0 \<and> m_shareram s' 127 = 0)
   \<and> (0xc3 :: u8) = ucast (m_mcu_regs (power_on\<lparr>m_share_bank := 1,
        m_shareram := (m_shareram power_on)(128 := 0x77),
        m_memcard_device := (m_memcard_device power_on)(0 := Some test_card),
        m_mcu_regs := (m_mcu_regs power_on)(0 := 0x810000c3)\<rparr>) 0 AND 0xff)
   \<and> mcu_share_index (power_on\<lparr>m_share_bank := 1,
        m_shareram := (m_shareram power_on)(128 := 0x77),
        m_memcard_device := (m_memcard_device power_on)(0 := Some test_card),
        m_mcu_regs := (m_mcu_regs power_on)(0 := 0x810000c3)\<rparr>) (unat (0x81 :: u8)) \<le> 0x100
   \<and> (\<exists>s' d'. mcu_command (power_on\<lparr>m_share_bank := 1,
        m_shareram := (m_shareram power_on)(128 := 0x77),
        m_memcard_device := (m_memcard_device power_on)(0 := Some test_card),
        m_mcu_regs := (m_mcu_regs power_on)(0 := 0x810000c3)\<rparr>) True = Inr s'
        \<and> m_memcard_device s' 0 = Some d' \<and> d' 128 = 0x77 \<and> d' 127 = 0 \<and> d' 129 = 130)"
proof -
  let ?long = "power_on\<lparr>m_memcard_device := (m_memcard_device power_on)(0 := Some test_card),
        m_mcu_regs := (m_mcu_regs power_on)(0 := 0x810500c2)\<rparr>"
  let ?short = "power_on\<lparr>m_memcard_device := (m_memcard_device power_on)(0 := Some test_card),
        m_mcu_regs := (m_mcu_regs power_on)(0 := 0x030500c2)\<rparr>"
  let ?spill = "power_on\<lparr>m_share_bank := 1,
        m_shareram := (m_shareram power_on)(128 := 0x77),
        m_memcard_device := (m_memcard_device power_on)(0 := Some test_card),
        m_mcu_regs := (m_mcu_regs power_on)(0 := 0x810000c3)\<rparr>"
  have bank: "mcu_share_index ?short i = i + 128" "mcu_share_index ?long i = i + 128"
    "mcu_share_index ?spill i = i" for i
    by (simp_all add: mcu_share_index_def power_on_def)
  from mcu_card_copy_indices [of "0xc2" ?short 0 5 3 test_card]
  obtain s' where run: "mcu_command ?short True = Inr s'"
    and rd: "\<forall>i<3. m_shareram s' (i + 128) = test_card (5 + i)"
    and fr: "\<forall>j. \<not> (128 \<le> j \<and> j < 131) \<longrightarrow> m_shareram s' j = m_shareram ?short j"
    by (auto simp: bank)
  from rd [rule_format, of 0] rd [rule_format, of 1] rd [rule_format, of 2]
  have "m_shareram s' 128 = test_card 5" "m_shareram s' 129 = test_card 6"
    "m_shareram s' 130 = test_card 7"
    by simp_all
  moreover from fr [rule_format, of 131] fr [rule_format, of 127]
  have "m_shareram s' 131 = m_shareram ?short 131" "m_shareram s' 127 = m_shareram ?short 127"
    by simp_all
  ultimately have short: "m_shareram s' 128 = 6 \<and> m_shareram s' 129 = 7 \<and> m_shareram s' 130 = 8
        \<and> m_shareram s' 131 = 0 \<and> m_shareram s' 127 = 0"
    by (simp add: test_card_def power_on_def)
  from mcu_card_copy_indices [of "0xc2" ?long 0 5 "0x81" test_card]
  have long: "mcu_command ?long True = Inl (OutOfRange 0x100)"
    by (simp add: power_on_def)
  have fits: "mcu_share_index ?spill (unat (0x81 :: u8)) \<le> 0x100"
    by (simp add: bank)
  from mcu_card_copy_indices [of "0xc3" ?spill 0 0 "0x81" test_card] fits
  obtain t d' where runw: "mcu_command ?spill True = Inr t"
    and card': "m_memcard_device t 0 = Some d'"
    and sv: "\<forall>i<129. d' i = m_shareram ?spill i"
    and kp: "\<forall>k. \<not> k < 129 \<longrightarrow> d' k = test_card k"
    by (auto simp: bank)
  from sv [rule_format, of 128] sv [rule_format, of 127] kp [rule_format, of 129]
  have "d' 128 = 0x77" "d' 127 = 0" "d' 129 = 130"
    by (simp_all add: test_card_def power_on_def)
  with runw card' have spill: "\<exists>s' d'. mcu_command ?spill True = Inr s'
        \<and> m_memcard_device s' 0 = Some d' \<and> d' 128 = 0x77 \<and> d' 127 = 0 \<and> d' 129 = 130"
    by blast
  from run short long fits spill show ?thesis
    by (simp add: power_on_def)
qed

subsection \<open>The colour repack\<close>

lemma colour_perm:
  "\<forall>n \<in> set [0..<16]. [15, 14, 13, 12, 11, 5, 4, 3, 7, 6, 10, 9, 8, 2, 1, 0::nat] ! (15 - n) < 16
     \<and> [15, 14, 13, 12, 11, 5, 4, 3, 7, 6, 10, 9, 8, 2, 1, 0::nat] !
         (15 - [15, 14, 13, 12, 11, 5, 4, 3, 7, 6, 10, 9, 8, 2, 1, 0::nat] ! (15 - n)) = n"
  by code_simp

lemma bit_sprite_colour_word:
  "bit (sprite_colour_word w) n \<longleftrightarrow>
     n < 16 \<and> bit w ([15, 14, 13, 12, 11, 5, 4, 3, 7, 6, 10, 9, 8, 2, 1, 0] ! (15 - n))"
proof -
  have len: "length [15, 14, 13, 12, 11, 5, 4, 3, 7, 6, 10, 9, 8, 2, 1, 0::nat] = 16"
    by simp
  have sub: "16 - Suc n = 15 - n"
    by simp
  have l16: "LENGTH(16) = 16"
    by simp
  show ?thesis
    unfolding sprite_colour_word_def BITSWAP16_def bit_bitswap_iff len sub l16
    by blast
qed

lemma sprite_colour_word_twice: "sprite_colour_word (sprite_colour_word w) = w"
proof (rule bit_word_eqI)
  fix n
  assume "n < LENGTH(16)"
  then have n: "n \<in> set [0..<16]"
    by simp
  from colour_perm [rule_format, OF n] n
  show "bit (sprite_colour_word (sprite_colour_word w)) n \<longleftrightarrow> bit w n"
    unfolding bit_sprite_colour_word by simp
qed

lemma sprite_colour_decode_loop_run:
  assumes "0 \<le> i" and "len sdiv 2 \<le> int (length rom)"
  shows "\<exists>rom'. sprite_colour_decode_loop i len rom = Inr rom' \<and> length rom' = length rom
     \<and> (\<forall>j < length rom. rom' ! j =
            (if i \<le> int j \<and> int j < len sdiv 2 then sprite_colour_word (rom ! j) else rom ! j))"
  using assms
proof (induction i len rom rule: sprite_colour_decode_loop.induct)
  case (1 i len rom)
  show ?case
  proof (cases "i < len sdiv 2")
    case False
    then show ?thesis
      by (subst sprite_colour_decode_loop.simps) auto
  next
    case True
    let ?rom1 = "rom[nat i := sprite_colour_word (rom ! nat i)]"
    from True "1.prems" have inb: "0 \<le> i \<and> nat i < length rom"
      by auto
    from "1.IH" [OF True inb] "1.prems"
    obtain rom' where run: "sprite_colour_decode_loop (i + 1) len ?rom1 = Inr rom'"
      and len: "length rom' = length rom"
      and nth: "\<forall>j < length rom. rom' ! j =
            (if i + 1 \<le> int j \<and> int j < len sdiv 2 then sprite_colour_word (?rom1 ! j) else ?rom1 ! j)"
      by auto
    have "sprite_colour_decode_loop i len rom = Inr rom'"
      using True inb run by (subst sprite_colour_decode_loop.simps) simp
    moreover have "\<forall>j < length rom. rom' ! j =
            (if i \<le> int j \<and> int j < len sdiv 2 then sprite_colour_word (rom ! j) else rom ! j)"
    proof (intro allI impI)
      fix j
      assume j: "j < length rom"
      show "rom' ! j = (if i \<le> int j \<and> int j < len sdiv 2 then sprite_colour_word (rom ! j) else rom ! j)"
      proof (cases "j = nat i")
        case True
        with nth [rule_format, OF j] inb \<open>i < len sdiv 2\<close> show ?thesis
          by simp
      next
        case False
        with nth [rule_format, OF j] inb show ?thesis
          by (auto simp: nth_list_update)
      qed
    qed
    ultimately show ?thesis
      using len by blast
  qed
qed

lemma colour_perm_swaps:
  "\<forall>n \<in> set [0..<16]. [15, 14, 13, 12, 11, 5, 4, 3, 7, 6, 10, 9, 8, 2, 1, 0::nat] ! (15 - n) =
     (if n = 10 then 5 else if n = 5 then 10 else if n = 9 then 4 else if n = 4 then 9
      else if n = 8 then 3 else if n = 3 then 8 else n)"
  by code_simp

lemma sprite_colour_word_fixed:
  "sprite_colour_word w = w \<longleftrightarrow> bit w 10 = bit w 5 \<and> bit w 9 = bit w 4 \<and> bit w 8 = bit w 3"
proof
  assume fixed: "sprite_colour_word w = w"
  have "bit (sprite_colour_word w) 10 = bit w 5" "bit (sprite_colour_word w) 9 = bit w 4"
    "bit (sprite_colour_word w) 8 = bit w 3"
    by (simp_all add: bit_sprite_colour_word)
  then show "bit w 10 = bit w 5 \<and> bit w 9 = bit w 4 \<and> bit w 8 = bit w 3"
    by (simp add: fixed)
next
  assume pairs: "bit w 10 = bit w 5 \<and> bit w 9 = bit w 4 \<and> bit w 8 = bit w 3"
  show "sprite_colour_word w = w"
  proof (rule bit_word_eqI)
    fix n
    assume "n < LENGTH(16)"
    then have n: "n \<in> set [0..<16]"
      by simp
    from colour_perm_swaps [rule_format, OF n] n pairs
    show "bit (sprite_colour_word w) n \<longleftrightarrow> bit w n"
      unfolding bit_sprite_colour_word by (simp split: if_splits)
  qed
qed

lemma sdiv_bytes: "bytes rgn sdiv 2 = int (length rgn)"
  by (simp add: bytes_def signed_divide_int_def sgn_if)

lemma sprite_colour_decode_twice:
  assumes "len sdiv 2 \<le> int (length rom)"
  shows "\<exists>rom'. sprite_colour_decode rom len = Inr rom' \<and> length rom' = length rom
     \<and> sprite_colour_decode rom' len = Inr rom"
proof -
  from sprite_colour_decode_loop_run [of 0 len rom] assms
  obtain rom' where run: "sprite_colour_decode_loop 0 len rom = Inr rom'"
    and len: "length rom' = length rom"
    and nth: "\<forall>j < length rom. rom' ! j =
            (if int j < len sdiv 2 then sprite_colour_word (rom ! j) else rom ! j)"
    by auto
  from sprite_colour_decode_loop_run [of 0 len rom'] assms len
  obtain rom'' where run': "sprite_colour_decode_loop 0 len rom' = Inr rom''"
    and len': "length rom'' = length rom"
    and nth': "\<forall>j < length rom. rom'' ! j =
            (if int j < len sdiv 2 then sprite_colour_word (rom' ! j) else rom' ! j)"
    by auto
  have "rom'' = rom"
  proof (rule nth_equalityI)
    show "length rom'' = length rom"
      by (rule len')
    fix j
    assume "j < length rom''"
    with len' have j: "j < length rom"
      by simp
    from nth [rule_format, OF j] nth' [rule_format, OF j]
    show "rom'' ! j = rom ! j"
      by (simp add: sprite_colour_word_twice)
  qed
  with run run' len show ?thesis
    by (simp add: sprite_colour_decode_def)
qed

text \<open>
  Claim C10, as stated, fails in its last part: one application does not differ from two
  on every word where the permutation moves a set bit. In \<open>0x0420\<close> bit 10 is set and
  the permutation moves it (to bit 5), but bit 5 is set as well and moves to bit 10, so the
  word is fixed and one application equals two.
\<close>

theorem sprite_colour_decode_idempotent_counterexample:
  "bit (0x0420 :: u16) 10
   \<and> sprite_colour_word 0x0400 = 0x0020
   \<and> sprite_colour_word (sprite_colour_word 0x0420) = sprite_colour_word 0x0420"
  by (simp add: sprite_colour_word_def BITSWAP16_def BIT_def)

text \<open>
  Claim C10, amended. The colour repack is an involution: its 16-bit permutation is
  self-inverse, so \<open>sprite_colour_decode\<close> applied twice to any buffer (with a length that
  stays inside it) restores the buffer exactly. It is not idempotent: one application
  differs from two exactly on the words in which one of the swapped bit pairs (10 and 5,
  9 and 4, 8 and 3) holds two different bits, \<open>0x0400\<close> for one.
\<close>

theorem sprite_colour_decode_involution:
  "sprite_colour_word (sprite_colour_word w) = w
   \<and> (\<exists>rom'. sprite_colour_decode rom (bytes rom) = Inr rom'
         \<and> sprite_colour_decode rom' (bytes rom') = Inr rom)
   \<and> (len sdiv 2 \<le> int (length rom) \<longrightarrow>
        (\<exists>rom'. sprite_colour_decode rom len = Inr rom' \<and> sprite_colour_decode rom' len = Inr rom))
   \<and> (sprite_colour_word (sprite_colour_word w) \<noteq> sprite_colour_word w \<longleftrightarrow>
        bit w 10 \<noteq> bit w 5 \<or> bit w 9 \<noteq> bit w 4 \<or> bit w 8 \<noteq> bit w 3)
   \<and> sprite_colour_word (sprite_colour_word 0x0400) \<noteq> sprite_colour_word 0x0400"
proof (intro conjI impI)
  show "sprite_colour_word (sprite_colour_word w) = w"
    by (rule sprite_colour_word_twice)
  from sprite_colour_decode_twice [of "bytes rom" rom]
  obtain rom' where "sprite_colour_decode rom (bytes rom) = Inr rom'" "length rom' = length rom"
    "sprite_colour_decode rom' (bytes rom) = Inr rom"
    by (auto simp: sdiv_bytes)
  moreover from this have "bytes rom' = bytes rom"
    by (simp add: bytes_def)
  ultimately show "\<exists>rom'. sprite_colour_decode rom (bytes rom) = Inr rom'
         \<and> sprite_colour_decode rom' (bytes rom') = Inr rom"
    by auto
  show "\<exists>rom'. sprite_colour_decode rom len = Inr rom' \<and> sprite_colour_decode rom' len = Inr rom"
    if "len sdiv 2 \<le> int (length rom)"
    using sprite_colour_decode_twice [OF that] by blast
  show "sprite_colour_word (sprite_colour_word w) \<noteq> sprite_colour_word w \<longleftrightarrow>
        bit w 10 \<noteq> bit w 5 \<or> bit w 9 \<noteq> bit w 4 \<or> bit w 8 \<noteq> bit w 3"
    using sprite_colour_word_fixed [of w] by (auto simp: sprite_colour_word_twice)
  show "sprite_colour_word (sprite_colour_word 0x0400) \<noteq> sprite_colour_word 0x0400"
    by (simp add: sprite_colour_word_def BITSWAP16_def BIT_def)
qed

theorem sprite_colour_decode_involution_witness:
  "(6 :: int) sdiv 2 \<le> int (length [0x0400, 0x0020, 0xffff :: u16])
   \<and> sprite_colour_decode [0x0400, 0x0020, 0xffff] 6 = Inr [0x0020, 0x0400, 0xffff]
   \<and> sprite_colour_decode [0x0020, 0x0400, 0xffff] 6 = Inr [0x0400, 0x0020, 0xffff]"
  using sprite_colour_decode_involution
    [where w = "0x0400" and len = 6 and rom = "[0x0400, 0x0020, 0xffff]"]
  by (simp add: sprite_colour_decode_def sprite_colour_decode_loop.simps sprite_colour_word_def
      BITSWAP16_def BIT_def signed_divide_int_def)

subsection \<open>The decoders at driver init\<close>

lemma iga_u12_decode_loop_run:
  assumes "0 \<le> i" and "len sdiv 2 \<le> int (length rom)"
  shows "\<exists>rom'. iga_u12_decode_loop i len ixor rom = Inr rom' \<and> length rom' = length rom
     \<and> (\<forall>j < length rom. rom' ! j =
            (if i \<le> int j \<and> int j < len sdiv 2 \<and> even (int j - i)
             then iga_u12_word (int j) ixor (rom ! j) else rom ! j))"
  using assms
proof (induction i len ixor rom rule: iga_u12_decode_loop.induct)
  case (1 i len ixor rom)
  show ?case
  proof (cases "i < len sdiv 2")
    case False
    then show ?thesis
      by (subst iga_u12_decode_loop.simps) auto
  next
    case True
    let ?rom1 = "rom[nat i := iga_u12_word i ixor (rom ! nat i)]"
    from True "1.prems" have inb: "0 \<le> i \<and> nat i < length rom"
      by auto
    from "1.IH" [OF True inb] "1.prems"
    obtain rom' where run: "iga_u12_decode_loop (i + 2) len ixor ?rom1 = Inr rom'"
      and len: "length rom' = length rom"
      and nth: "\<forall>j < length rom. rom' ! j =
            (if i + 2 \<le> int j \<and> int j < len sdiv 2 \<and> even (int j - (i + 2))
             then iga_u12_word (int j) ixor (?rom1 ! j) else ?rom1 ! j)"
      by auto
    have "iga_u12_decode_loop i len ixor rom = Inr rom'"
      using True inb run by (subst iga_u12_decode_loop.simps) simp
    moreover have "\<forall>j < length rom. rom' ! j =
            (if i \<le> int j \<and> int j < len sdiv 2 \<and> even (int j - i)
             then iga_u12_word (int j) ixor (rom ! j) else rom ! j)"
    proof (intro allI impI)
      fix j
      assume j: "j < length rom"
      show "rom' ! j = (if i \<le> int j \<and> int j < len sdiv 2 \<and> even (int j - i)
             then iga_u12_word (int j) ixor (rom ! j) else rom ! j)"
      proof (cases "j = nat i")
        case True
        with nth [rule_format, OF j] inb \<open>i < len sdiv 2\<close> show ?thesis
          by simp
      next
        case False
        then have upd: "?rom1 ! j = rom ! j"
          by simp
        have "int j = i + 1 \<Longrightarrow> odd (int j - i)"
          by simp
        moreover have "i \<le> int j \<and> even (int j - i) \<longleftrightarrow> i + 2 \<le> int j \<and> even (int j - (i + 2))"
          using False inb by (cases "int j = i + 1") auto
        ultimately show ?thesis
          using nth [rule_format, OF j] upd by auto
      qed
    qed
    ultimately show ?thesis
      using len by blast
  qed
qed

lemma iga_u16_decode_loop_run:
  assumes "0 \<le> i" and "len sdiv 2 \<le> int (length rom)"
  shows "\<exists>rom'. iga_u16_decode_loop i len ixor rom = Inr rom' \<and> length rom' = length rom
     \<and> (\<forall>j < length rom. rom' ! j =
            (if i \<le> int j \<and> int j < len sdiv 2 \<and> even (int j - i)
             then iga_u16_word (int j) ixor (rom ! j) else rom ! j))"
  using assms
proof (induction i len ixor rom rule: iga_u16_decode_loop.induct)
  case (1 i len ixor rom)
  show ?case
  proof (cases "i < len sdiv 2")
    case False
    then show ?thesis
      by (subst iga_u16_decode_loop.simps) auto
  next
    case True
    let ?rom1 = "rom[nat i := iga_u16_word i ixor (rom ! nat i)]"
    from True "1.prems" have inb: "0 \<le> i \<and> nat i < length rom"
      by auto
    from "1.IH" [OF True inb] "1.prems"
    obtain rom' where run: "iga_u16_decode_loop (i + 2) len ixor ?rom1 = Inr rom'"
      and len: "length rom' = length rom"
      and nth: "\<forall>j < length rom. rom' ! j =
            (if i + 2 \<le> int j \<and> int j < len sdiv 2 \<and> even (int j - (i + 2))
             then iga_u16_word (int j) ixor (?rom1 ! j) else ?rom1 ! j)"
      by auto
    have "iga_u16_decode_loop i len ixor rom = Inr rom'"
      using True inb run by (subst iga_u16_decode_loop.simps) simp
    moreover have "\<forall>j < length rom. rom' ! j =
            (if i \<le> int j \<and> int j < len sdiv 2 \<and> even (int j - i)
             then iga_u16_word (int j) ixor (rom ! j) else rom ! j)"
    proof (intro allI impI)
      fix j
      assume j: "j < length rom"
      show "rom' ! j = (if i \<le> int j \<and> int j < len sdiv 2 \<and> even (int j - i)
             then iga_u16_word (int j) ixor (rom ! j) else rom ! j)"
      proof (cases "j = nat i")
        case True
        with nth [rule_format, OF j] inb \<open>i < len sdiv 2\<close> show ?thesis
          by simp
      next
        case False
        then have upd: "?rom1 ! j = rom ! j"
          by simp
        have "int j = i + 1 \<Longrightarrow> odd (int j - i)"
          by simp
        moreover have "i \<le> int j \<and> even (int j - i) \<longleftrightarrow> i + 2 \<le> int j \<and> even (int j - (i + 2))"
          using False inb by (cases "int j = i + 1") auto
        ultimately show ?thesis
          using nth [rule_format, OF j] upd by auto
      qed
    qed
    ultimately show ?thesis
      using len by blast
  qed
qed

lemma mask_decode_run:
  assumes "len sdiv 2 \<le> int (length m)"
  shows "\<exists>m1 m2. iga_u12_decode m len k12 = Inr m1 \<and> iga_u16_decode m1 len k16 = Inr m2
     \<and> length m2 = length m
     \<and> (\<forall>j < length m. m2 ! j =
            (if int j < len sdiv 2
             then (if even j then iga_u12_word (int j) k12 (m ! j) else iga_u16_word (int j) k16 (m ! j))
             else m ! j))"
proof -
  from iga_u12_decode_loop_run [of 0 len m k12] assms
  obtain m1 where run1: "iga_u12_decode_loop 0 len k12 m = Inr m1"
    and len1: "length m1 = length m"
    and nth1: "\<forall>j < length m. m1 ! j =
            (if 0 \<le> int j \<and> int j < len sdiv 2 \<and> even (int j - 0)
             then iga_u12_word (int j) k12 (m ! j) else m ! j)"
    by blast
  from iga_u16_decode_loop_run [of 1 len m1 k16] assms len1
  obtain m2 where run2: "iga_u16_decode_loop 1 len k16 m1 = Inr m2"
    and len2: "length m2 = length m"
    and nth2: "\<forall>j < length m. m2 ! j =
            (if 1 \<le> int j \<and> int j < len sdiv 2 \<and> even (int j - 1)
             then iga_u16_word (int j) k16 (m1 ! j) else m1 ! j)"
    by auto
  have "\<forall>j < length m. m2 ! j =
            (if int j < len sdiv 2
             then (if even j then iga_u12_word (int j) k12 (m ! j) else iga_u16_word (int j) k16 (m ! j))
             else m ! j)"
  proof (intro allI impI)
    fix j
    assume j: "j < length m"
    have "odd j \<Longrightarrow> 1 \<le> int j"
      by (cases j) auto
    with nth1 [rule_format, OF j] nth2 [rule_format, OF j]
    show "m2 ! j =
            (if int j < len sdiv 2
             then (if even j then iga_u12_word (int j) k12 (m ! j) else iga_u16_word (int j) k16 (m ! j))
             else m ! j)"
      by auto
  qed
  with run1 run2 len2 show ?thesis
    by (auto simp: iga_u12_decode_def iga_u16_decode_def)
qed

lemma colour_decode_run:
  assumes "len sdiv 2 \<le> int (length c)"
  shows "\<exists>c'. sprite_colour_decode c len = Inr c' \<and> length c' = length c
     \<and> (\<forall>j < length c. c' ! j =
            (if int j < len sdiv 2 then sprite_colour_word (c ! j) else c ! j))"
  using sprite_colour_decode_loop_run [of 0 len c] assms
  by (auto simp: sprite_colour_decode_def)

lemma decrypt_kov3_module_loop_run:
  assumes "\<forall>i < length src. unat (word_of_nat i XOR addrxor) < length src"
    and "length buffer = length src"
  shows "\<exists>buffer'. decrypt_kov3_module_loop i addrxor dataxor src buffer = Inr buffer'
     \<and> length buffer' = length src
     \<and> (\<forall>j < length src. buffer' ! j =
            (if i \<le> j then src ! unat (word_of_nat j XOR addrxor) XOR dataxor else buffer ! j))"
  using assms
proof (induction i addrxor dataxor src buffer rule: decrypt_kov3_module_loop.induct)
  case (1 i addrxor dataxor src buffer)
  show ?case
  proof (cases "i < length src")
    case False
    with "1.prems" show ?thesis
      by (subst decrypt_kov3_module_loop.simps) auto
  next
    case True
    let ?b1 = "buffer[i := src ! unat (word_of_nat i XOR addrxor) XOR dataxor]"
    from True "1.prems" have inb: "unat (word_of_nat i XOR addrxor) < length src"
      by simp
    from "1.IH" [OF True inb] "1.prems"
    obtain buffer' where run: "decrypt_kov3_module_loop (i + 1) addrxor dataxor src ?b1 = Inr buffer'"
      and len: "length buffer' = length src"
      and nth: "\<forall>j < length src. buffer' ! j =
            (if i + 1 \<le> j then src ! unat (word_of_nat j XOR addrxor) XOR dataxor else ?b1 ! j)"
      by auto
    have "decrypt_kov3_module_loop i addrxor dataxor src buffer = Inr buffer'"
      using True inb run by (subst decrypt_kov3_module_loop.simps) simp
    moreover have "\<forall>j < length src. buffer' ! j =
            (if i \<le> j then src ! unat (word_of_nat j XOR addrxor) XOR dataxor else buffer ! j)"
    proof (intro allI impI)
      fix j
      assume j: "j < length src"
      show "buffer' ! j =
            (if i \<le> j then src ! unat (word_of_nat j XOR addrxor) XOR dataxor else buffer ! j)"
      proof (cases "j = i")
        case True
        with nth [rule_format, OF j] j "1.prems"(2) show ?thesis
          by simp
      next
        case False
        with nth [rule_format, OF j] show ?thesis
          by auto
      qed
    qed
    ultimately show ?thesis
      using len by blast
  qed
qed

lemma common_encryption_init_run:
  "\<exists>s'. common_encryption_init s = Inr s'
     \<and> length (sprites_mask s') = length (sprites_mask s)
     \<and> (\<forall>j < length (sprites_mask s). sprites_mask s' ! j =
            (if even j then iga_u12_word (int j) 0 (sprites_mask s ! j)
             else iga_u16_word (int j) 0 (sprites_mask s ! j)))
     \<and> sprites_colour s' = map sprite_colour_word (sprites_colour s)
     \<and> user1 s' = user1 s
     \<and> m_sprite_predecrypted s' = 0 \<and> m_has_decrypted s' = 0"
proof -
  from mask_decode_run [of "bytes (sprites_mask s)" "sprites_mask s" 0 0]
  obtain m1 m2 where m1: "iga_u12_decode (sprites_mask s) (bytes (sprites_mask s)) 0 = Inr m1"
    and m2: "iga_u16_decode m1 (bytes (sprites_mask s)) 0 = Inr m2"
    and lenm: "length m2 = length (sprites_mask s)"
    and nthm: "\<forall>j < length (sprites_mask s). m2 ! j =
            (if even j then iga_u12_word (int j) 0 (sprites_mask s ! j)
             else iga_u16_word (int j) 0 (sprites_mask s ! j))"
    by (auto simp: sdiv_bytes)
  from colour_decode_run [of "bytes (sprites_colour s)" "sprites_colour s"]
  obtain c where c: "sprite_colour_decode (sprites_colour s) (bytes (sprites_colour s)) = Inr c"
    and lenc: "length c = length (sprites_colour s)"
    and nthc: "\<forall>j < length (sprites_colour s). c ! j = sprite_colour_word (sprites_colour s ! j)"
    by (auto simp: sdiv_bytes)
  from lenc nthc have "c = map sprite_colour_word (sprites_colour s)"
    by (intro nth_equalityI) simp_all
  with m1 m2 c lenm nthm show ?thesis
    by (simp add: common_encryption_init_def)
qed

lemma driver_init_ddpdojh_run:
  assumes "0x800000 \<le> length (sprites_mask s)" and "0x1000000 \<le> length (sprites_colour s)"
  shows "\<exists>s'. driver_init_ddpdojh decrypter_rom ddpdoj_key s = Inr s'
     \<and> length (sprites_mask s') = length (sprites_mask s)
     \<and> (\<forall>j < length (sprites_mask s). sprites_mask s' ! j =
            (if j < 0x800000
             then (if even j then iga_u12_word (int j) 0x1e96 (sprites_mask s ! j)
                   else iga_u16_word (int j) 0x869c (sprites_mask s ! j))
             else sprites_mask s ! j))
     \<and> length (sprites_colour s') = length (sprites_colour s)
     \<and> (\<forall>j < length (sprites_colour s). sprites_colour s' ! j =
            (if j < 0x1000000 then sprite_colour_word (sprites_colour s ! j) else sprites_colour s ! j))
     \<and> user1 s' = decrypter_rom ddpdoj_key (user1 s)
     \<and> m_sprite_predecrypted s' = 1 \<and> m_has_decrypted s' = 1"
proof -
  have half: "(0x1000000 :: int) sdiv 2 = 0x800000" "(0x2000000 :: int) sdiv 2 = 0x1000000"
    by (simp_all add: signed_divide_int_def)
  from mask_decode_run [of "0x1000000" "sprites_mask s" "0x1e96" "0x869c"] assms(1)
  obtain m1 m2 where m1: "iga_u12_decode (sprites_mask s) 0x1000000 0x1e96 = Inr m1"
    and m2: "iga_u16_decode m1 0x1000000 0x869c = Inr m2"
    and lenm: "length m2 = length (sprites_mask s)"
    and nthm: "\<forall>j < length (sprites_mask s). m2 ! j =
            (if j < 0x800000
             then (if even j then iga_u12_word (int j) 0x1e96 (sprites_mask s ! j)
                   else iga_u16_word (int j) 0x869c (sprites_mask s ! j))
             else sprites_mask s ! j)"
    unfolding half by auto
  from colour_decode_run [of "0x2000000" "sprites_colour s"] assms(2)
  obtain c where c: "sprite_colour_decode (sprites_colour s) 0x2000000 = Inr c"
    and lenc: "length c = length (sprites_colour s)"
    and nthc: "\<forall>j < length (sprites_colour s). c ! j =
            (if j < 0x1000000 then sprite_colour_word (sprites_colour s ! j) else sprites_colour s ! j)"
    unfolding half by auto
  from m1 m2 c lenm nthm lenc nthc show ?thesis
    by (simp add: driver_init_ddpdojh_def)
qed

lemma driver_init_kov3_run:
  assumes "0x2000000 \<le> length (sprites_mask s)" and "0x4000000 \<le> length (sprites_colour s)"
  shows "\<exists>s'. driver_init_kov3 decrypter_rom kov3_key s = Inr s'
     \<and> length (sprites_mask s') = length (sprites_mask s)
     \<and> (\<forall>j < length (sprites_mask s). sprites_mask s' ! j =
            (if j < 0x2000000
             then (if even j then iga_u12_word (int j) 0x956d (sprites_mask s ! j)
                   else iga_u16_word (int j) 0x3d17 (sprites_mask s ! j))
             else sprites_mask s ! j))
     \<and> length (sprites_colour s') = length (sprites_colour s)
     \<and> (\<forall>j < length (sprites_colour s). sprites_colour s' ! j =
            (if j < 0x4000000 then sprite_colour_word (sprites_colour s ! j) else sprites_colour s ! j))
     \<and> user1 s' = decrypter_rom kov3_key (user1 s)
     \<and> m_sprite_predecrypted s' = 1 \<and> m_has_decrypted s' = 1"
proof -
  have half: "(0x4000000 :: int) sdiv 2 = 0x2000000" "(0x8000000 :: int) sdiv 2 = 0x4000000"
    by (simp_all add: signed_divide_int_def)
  from mask_decode_run [of "0x4000000" "sprites_mask s" "0x956d" "0x3d17"] assms(1)
  obtain m1 m2 where m1: "iga_u12_decode (sprites_mask s) 0x4000000 0x956d = Inr m1"
    and m2: "iga_u16_decode m1 0x4000000 0x3d17 = Inr m2"
    and lenm: "length m2 = length (sprites_mask s)"
    and nthm: "\<forall>j < length (sprites_mask s). m2 ! j =
            (if j < 0x2000000
             then (if even j then iga_u12_word (int j) 0x956d (sprites_mask s ! j)
                   else iga_u16_word (int j) 0x3d17 (sprites_mask s ! j))
             else sprites_mask s ! j)"
    unfolding half by auto
  from colour_decode_run [of "0x8000000" "sprites_colour s"] assms(2)
  obtain c where c: "sprite_colour_decode (sprites_colour s) 0x8000000 = Inr c"
    and lenc: "length c = length (sprites_colour s)"
    and nthc: "\<forall>j < length (sprites_colour s). c ! j =
            (if j < 0x4000000 then sprite_colour_word (sprites_colour s ! j) else sprites_colour s ! j)"
    unfolding half by auto
  from m1 m2 c lenm nthm lenc nthc show ?thesis
    by (simp add: driver_init_kov3_def)
qed

lemma decrypt_kov3_module_run:
  assumes "\<forall>i < length (user1 s). unat (word_of_nat i XOR addrxor) < length (user1 s)"
  shows "\<exists>buffer. decrypt_kov3_module addrxor dataxor s = Inr (s\<lparr>user1 := buffer\<rparr>)
     \<and> length buffer = length (user1 s)
     \<and> (\<forall>i < length (user1 s). buffer ! i = user1 s ! unat (word_of_nat i XOR addrxor) XOR dataxor)"
  using decrypt_kov3_module_loop_run [OF assms, of "replicate (length (user1 s)) 0" 0 dataxor]
  by (auto simp: decrypt_kov3_module_def)

lemma driver_init_kov3_104_run:
  assumes "\<forall>i < length (user1 s). unat (word_of_nat i XOR (0x18ec71 :: u32)) < length (user1 s)"
    and "0x2000000 \<le> length (sprites_mask s)" and "0x4000000 \<le> length (sprites_colour s)"
  shows "\<exists>s' buffer. driver_init_kov3_104 decrypter_rom kov3_key s = Inr s'
     \<and> length buffer = length (user1 s)
     \<and> (\<forall>i < length (user1 s).
            buffer ! i = user1 s ! unat (word_of_nat i XOR (0x18ec71 :: u32)) XOR 0xb89d)
     \<and> user1 s' = decrypter_rom kov3_key buffer
     \<and> length (sprites_mask s') = length (sprites_mask s)
     \<and> (\<forall>j < length (sprites_mask s). sprites_mask s' ! j =
            (if j < 0x2000000
             then (if even j then iga_u12_word (int j) 0x956d (sprites_mask s ! j)
                   else iga_u16_word (int j) 0x3d17 (sprites_mask s ! j))
             else sprites_mask s ! j))
     \<and> length (sprites_colour s') = length (sprites_colour s)
     \<and> (\<forall>j < length (sprites_colour s). sprites_colour s' ! j =
            (if j < 0x4000000 then sprite_colour_word (sprites_colour s ! j) else sprites_colour s ! j))
     \<and> m_sprite_predecrypted s' = 1 \<and> m_has_decrypted s' = 1"
proof -
  from decrypt_kov3_module_run [OF assms(1), of "0xb89d"]
  obtain buffer where md: "decrypt_kov3_module 0x18ec71 0xb89d s = Inr (s\<lparr>user1 := buffer\<rparr>)"
    and lenb: "length buffer = length (user1 s)"
    and nthb: "\<forall>i < length (user1 s).
            buffer ! i = user1 s ! unat (word_of_nat i XOR (0x18ec71 :: u32)) XOR 0xb89d"
    by blast
  from driver_init_kov3_run [of "s\<lparr>user1 := buffer\<rparr>" decrypter_rom kov3_key] assms(2,3)
  obtain s' where run: "driver_init_kov3 decrypter_rom kov3_key (s\<lparr>user1 := buffer\<rparr>) = Inr s'"
    and rest: "length (sprites_mask s') = length (sprites_mask s)"
      "\<forall>j < length (sprites_mask s). sprites_mask s' ! j =
            (if j < 0x2000000
             then (if even j then iga_u12_word (int j) 0x956d (sprites_mask s ! j)
                   else iga_u16_word (int j) 0x3d17 (sprites_mask s ! j))
             else sprites_mask s ! j)"
      "length (sprites_colour s') = length (sprites_colour s)"
      "\<forall>j < length (sprites_colour s). sprites_colour s' ! j =
            (if j < 0x4000000 then sprite_colour_word (sprites_colour s ! j) else sprites_colour s ! j)"
      "user1 s' = decrypter_rom kov3_key buffer"
      "m_sprite_predecrypted s' = 1" "m_has_decrypted s' = 1"
    by auto
  have "driver_init_kov3_104 decrypter_rom kov3_key s = Inr s'"
    by (simp add: driver_init_kov3_104_def md run)
  with lenb nthb rest show ?thesis
    by blast
qed

lemma int_less_power2: "int n < 2 ^ k \<longleftrightarrow> n < 2 ^ k"
proof -
  have "int n < int (2 ^ k) \<longleftrightarrow> n < 2 ^ k"
    by (rule of_nat_less_iff)
  then show ?thesis
    by (simp only: of_nat_power of_nat_numeral)
qed

lemma module_index_bound:
  assumes "i < 2 ^ k" and "unat a < 2 ^ k" and "k \<le> 32"
  shows "unat (word_of_nat i XOR a :: u32) < 2 ^ k"
proof -
  have "(2::nat) ^ k \<le> 2 ^ 32"
    using assms(3) by (intro power_increasing) simp_all
  with assms(1) have "i < 2 ^ LENGTH(32)"
    by simp
  then have i: "unat (word_of_nat i :: u32) = i"
    by (simp only: unat_of_nat mod_less)
  have x: "uint (word_of_nat i :: u32) < 2 ^ k"
    using assms(1) unfolding uint_nat i by (simp only: int_less_power2)
  have y: "uint a < 2 ^ k"
    using assms(2) unfolding uint_nat by (simp only: int_less_power2)
  have "uint (word_of_nat i :: u32) XOR uint a < 2 ^ k"
    using _ x y by (rule XOR_upper) simp
  then have "uint (word_of_nat i XOR a :: u32) < 2 ^ k"
    by (simp only: uint_xor)
  then show ?thesis
    unfolding uint_nat by (simp only: int_less_power2)
qed

text \<open>
  Claim C8, as stated, fails: the positional decoders are not applied to the sprite-colour
  region. For a sprite-colour region holding the single word \<open>0x0001\<close>, the init leaves
  \<open>0x0001\<close> (the colour repack fixes bit 0), where the transforms of the claim give
  \<open>0x0080\<close> (the decoder moves bit 0 to bit 7 first).
\<close>

theorem init_order_counterexample:
  "sprites_colour (projr (common_encryption_init (power_on\<lparr>sprites_colour := [0x0001]\<rparr>))) = [0x0001]
   \<and> sprites_colour (projr (spec_decryptTitle None 0 0 (power_on\<lparr>sprites_colour := [0x0001]\<rparr>))) = [0x0080]"
  by (simp add: power_on_def common_encryption_init_def spec_decryptTitle_def spec_positional_decode_def
      bytes_def signed_divide_int_def
      iga_u12_decode_def iga_u12_decode_loop.simps iga_u12_word_def iga_u12_x_def
      iga_u16_decode_def iga_u16_decode_loop.simps
      sprite_colour_decode_def sprite_colour_decode_loop.simps sprite_colour_word_def
      BITSWAP16_def BIT_def Let_def)

text \<open>
  Claim C8, amended. The driver inits apply (1) for the titles with a module layer, the
  transform \<open>dst[i] = src[i XOR addrMask] XOR dataMask\<close> over the program ROM with the
  title's masks, before anything else touches the program ROM; (2) the positional decoders
  over the sprite-mask region only, the first on the even words and the second on the odd
  words, with the title's base keys (zero keys in \<open>common_encryption_init\<close>); (3) the
  colour repack over the sprite-colour region, which nothing else transforms. Stated for
  \<open>common_encryption_init\<close> (here the program ROM is left as it is), for the init of
  ddpdojh, and for the init of kov3 (V104) with its module layer; the fixed lengths of the
  last two must fit the regions.
\<close>

theorem driver_init_order:
  "(\<exists>s'. common_encryption_init s = Inr s'
      \<and> length (sprites_mask s') = length (sprites_mask s)
      \<and> (\<forall>j < length (sprites_mask s). sprites_mask s' ! j =
             (if even j then iga_u12_word (int j) 0 (sprites_mask s ! j)
              else iga_u16_word (int j) 0 (sprites_mask s ! j)))
      \<and> sprites_colour s' = map sprite_colour_word (sprites_colour s)
      \<and> user1 s' = user1 s
      \<and> m_sprite_predecrypted s' = 0 \<and> m_has_decrypted s' = 0)
   \<and> (0x800000 \<le> length (sprites_mask s) \<and> 0x1000000 \<le> length (sprites_colour s) \<longrightarrow>
       (\<exists>s'. driver_init_ddpdojh decrypter_rom ddpdoj_key s = Inr s'
          \<and> length (sprites_mask s') = length (sprites_mask s)
          \<and> (\<forall>j < length (sprites_mask s). sprites_mask s' ! j =
                 (if j < 0x800000
                  then (if even j then iga_u12_word (int j) 0x1e96 (sprites_mask s ! j)
                        else iga_u16_word (int j) 0x869c (sprites_mask s ! j))
                  else sprites_mask s ! j))
          \<and> length (sprites_colour s') = length (sprites_colour s)
          \<and> (\<forall>j < length (sprites_colour s). sprites_colour s' ! j =
                 (if j < 0x1000000 then sprite_colour_word (sprites_colour s ! j)
                  else sprites_colour s ! j))
          \<and> user1 s' = decrypter_rom ddpdoj_key (user1 s)
          \<and> m_sprite_predecrypted s' = 1 \<and> m_has_decrypted s' = 1))
   \<and> ((\<forall>i < length (user1 s). unat (word_of_nat i XOR (0x18ec71 :: u32)) < length (user1 s))
        \<and> 0x2000000 \<le> length (sprites_mask s) \<and> 0x4000000 \<le> length (sprites_colour s) \<longrightarrow>
       (\<exists>s' buffer. driver_init_kov3_104 decrypter_rom kov3_key s = Inr s'
          \<and> length buffer = length (user1 s)
          \<and> (\<forall>i < length (user1 s).
                 buffer ! i = user1 s ! unat (word_of_nat i XOR (0x18ec71 :: u32)) XOR 0xb89d)
          \<and> user1 s' = decrypter_rom kov3_key buffer
          \<and> length (sprites_mask s') = length (sprites_mask s)
          \<and> (\<forall>j < length (sprites_mask s). sprites_mask s' ! j =
                 (if j < 0x2000000
                  then (if even j then iga_u12_word (int j) 0x956d (sprites_mask s ! j)
                        else iga_u16_word (int j) 0x3d17 (sprites_mask s ! j))
                  else sprites_mask s ! j))
          \<and> length (sprites_colour s') = length (sprites_colour s)
          \<and> (\<forall>j < length (sprites_colour s). sprites_colour s' ! j =
                 (if j < 0x4000000 then sprite_colour_word (sprites_colour s ! j)
                  else sprites_colour s ! j))
          \<and> m_sprite_predecrypted s' = 1 \<and> m_has_decrypted s' = 1))"
proof (intro conjI)
  show "\<exists>s'. common_encryption_init s = Inr s'
      \<and> length (sprites_mask s') = length (sprites_mask s)
      \<and> (\<forall>j < length (sprites_mask s). sprites_mask s' ! j =
             (if even j then iga_u12_word (int j) 0 (sprites_mask s ! j)
              else iga_u16_word (int j) 0 (sprites_mask s ! j)))
      \<and> sprites_colour s' = map sprite_colour_word (sprites_colour s)
      \<and> user1 s' = user1 s
      \<and> m_sprite_predecrypted s' = 0 \<and> m_has_decrypted s' = 0"
    by (rule common_encryption_init_run)
qed (blast intro: driver_init_ddpdojh_run driver_init_kov3_104_run)+

theorem driver_init_order_witness:
  "0x800000 \<le> length (sprites_mask (power_on\<lparr>user1 := replicate 0x200000 0,
       sprites_mask := replicate 0x2000000 0, sprites_colour := replicate 0x4000000 0\<rparr>))
   \<and> 0x1000000 \<le> length (sprites_colour (power_on\<lparr>user1 := replicate 0x200000 0,
       sprites_mask := replicate 0x2000000 0, sprites_colour := replicate 0x4000000 0\<rparr>))
   \<and> length (user1 (power_on\<lparr>user1 := replicate 0x200000 0,
       sprites_mask := replicate 0x2000000 0, sprites_colour := replicate 0x4000000 0\<rparr>)) = 2 ^ 21
   \<and> 0x2000000 \<le> length (sprites_mask (power_on\<lparr>user1 := replicate 0x200000 0,
       sprites_mask := replicate 0x2000000 0, sprites_colour := replicate 0x4000000 0\<rparr>))
   \<and> 0x4000000 \<le> length (sprites_colour (power_on\<lparr>user1 := replicate 0x200000 0,
       sprites_mask := replicate 0x2000000 0, sprites_colour := replicate 0x4000000 0\<rparr>))
   \<and> (\<exists>s'. driver_init_kov3_104 (\<lambda>key rom. rom) (\<lambda>_. 0) (power_on\<lparr>user1 := replicate 0x200000 0,
       sprites_mask := replicate 0x2000000 0, sprites_colour := replicate 0x4000000 0\<rparr>) = Inr s'
        \<and> user1 s' ! 0 = 0xb89d \<and> sprites_colour s' ! 0 = 0 \<and> m_has_decrypted s' = 1)
   \<and> (\<exists>s'. driver_init_ddpdojh (\<lambda>key rom. rom) (\<lambda>_. 0) (power_on\<lparr>user1 := replicate 0x200000 0,
       sprites_mask := replicate 0x2000000 0, sprites_colour := replicate 0x4000000 0\<rparr>) = Inr s'
        \<and> m_has_decrypted s' = 1)
   \<and> (\<exists>s'. common_encryption_init (power_on\<lparr>sprites_mask := [0x0001, 0x0001],
         sprites_colour := [0x0400], user1 := [7]\<rparr>) = Inr s'
        \<and> sprites_mask s' = [0x0080, 0x0080] \<and> sprites_colour s' = [0x0020] \<and> user1 s' = [7])"
proof -
  let ?big = "power_on\<lparr>user1 := replicate 0x200000 0,
       sprites_mask := replicate 0x2000000 0, sprites_colour := replicate 0x4000000 0\<rparr>"
  let ?small = "power_on\<lparr>sprites_mask := [0x0001, 0x0001], sprites_colour := [0x0400], user1 := [7]\<rparr>"
  have lens: "length (user1 ?big) = 2 ^ 21" "length (sprites_mask ?big) = 0x2000000"
    "length (sprites_colour ?big) = 0x4000000"
    by simp_all
  have idx: "\<forall>i < length (user1 ?big). unat (word_of_nat i XOR (0x18ec71 :: u32)) < length (user1 ?big)"
    unfolding lens by (intro allI impI module_index_bound) simp_all
  have sizes: "0x800000 \<le> length (sprites_mask ?big)" "0x1000000 \<le> length (sprites_colour ?big)"
    "0x2000000 \<le> length (sprites_mask ?big)" "0x4000000 \<le> length (sprites_colour ?big)"
    unfolding lens by simp_all
  note inst = driver_init_order [of ?big "\<lambda>key rom. rom" "\<lambda>_. 0" "\<lambda>_. 0"]
  from inst idx sizes obtain s' buffer where
    run: "driver_init_kov3_104 (\<lambda>key rom. rom) (\<lambda>_. 0) ?big = Inr s'"
    and buf: "\<forall>i < length (user1 ?big).
                 buffer ! i = user1 ?big ! unat (word_of_nat i XOR (0x18ec71 :: u32)) XOR 0xb89d"
      "user1 s' = buffer"
    and col: "\<forall>j < length (sprites_colour ?big). sprites_colour s' ! j =
                 (if j < 0x4000000 then sprite_colour_word (sprites_colour ?big ! j)
                  else sprites_colour ?big ! j)"
    and flag: "m_has_decrypted s' = 1"
    by blast
  have zero: "sprite_colour_word 0 = 0"
    by (simp add: sprite_colour_word_def BITSWAP16_def BIT_def)
  from buf(1) [rule_format, of 0] have "buffer ! 0 = 0xb89d"
    by simp
  moreover from col [rule_format, of 0] have "sprites_colour s' ! 0 = 0"
    by (simp add: zero)
  ultimately have kov3: "\<exists>s'. driver_init_kov3_104 (\<lambda>key rom. rom) (\<lambda>_. 0) ?big = Inr s'
        \<and> user1 s' ! 0 = 0xb89d \<and> sprites_colour s' ! 0 = 0 \<and> m_has_decrypted s' = 1"
    using run buf(2) flag by blast
  from inst sizes have ddp: "\<exists>s'. driver_init_ddpdojh (\<lambda>key rom. rom) (\<lambda>_. 0) ?big = Inr s'
        \<and> m_has_decrypted s' = 1"
    by blast
  from driver_init_order [of ?small]
  obtain t where t: "common_encryption_init ?small = Inr t"
    and tm: "length (sprites_mask t) = length (sprites_mask ?small)"
      "\<forall>j < length (sprites_mask ?small). sprites_mask t ! j =
             (if even j then iga_u12_word (int j) 0 (sprites_mask ?small ! j)
              else iga_u16_word (int j) 0 (sprites_mask ?small ! j))"
    and tc: "sprites_colour t = map sprite_colour_word (sprites_colour ?small)"
    and tu: "user1 t = user1 ?small"
    by blast
  from tm(2) [rule_format, of 0] tm(2) [rule_format, of 1]
  have "sprites_mask t ! 0 = 0x0080" "sprites_mask t ! 1 = 0x0080"
    by (simp_all add: iga_u12_word_def iga_u12_x_def iga_u16_word_def iga_u16_x_def BITSWAP16_def BIT_def)
  with tm(1) have "sprites_mask t = [0x0080, 0x0080]"
    by (intro nth_equalityI) (auto simp: less_Suc_eq)
  moreover from tc have "sprites_colour t = [0x0020]"
    by (simp add: sprite_colour_word_def BITSWAP16_def BIT_def)
  moreover from tu have "user1 t = [7]"
    by simp
  ultimately have small: "\<exists>s'. common_encryption_init ?small = Inr s'
        \<and> sprites_mask s' = [0x0080, 0x0080] \<and> sprites_colour s' = [0x0020] \<and> user1 s' = [7]"
    using t by blast
  from sizes lens(1) kov3 ddp small show ?thesis
    by blast
qed

end
